theory Spec2Isabelle
  imports Complex_Main "HOL-Library.AList"
begin

section \<open>Domain types (types/index.ts)\<close>

text \<open>
  JavaScript numbers are modelled as real numbers: the arithmetic of the source is read
  as exact arithmetic, without the rounding of IEEE doubles and without infinities. The one
  place where the engine computes with a value that is not a number is the expected value
  of a metric id that names an inherited property of the baseline object; the numbers
  derived from the expected value are therefore of the type \<open>Number\<close>, a real or NaN.
  ISO timestamps of monitor states and alarms stay strings, so that the empty string is
  falsy as in the source. Of each interface only the fields the evaluation engine reads or
  writes are kept.
\<close>

datatype CampaignVertical = E_commerce | Finance | SaaS | Travel | B2B | Healthcare | Education

datatype CampaignObjective = Performance | Brand_Awareness | Video | App_Install

datatype MonitorType = SIMPLE | COMPOSITE | GRANULAR

datatype MonitorState = OK | IN_ALARM

datatype AlarmSeverity = CRITICAL | HIGH | MEDIUM | LOW

datatype AlarmState = ACTIVE | RESOLVED | DISMISSED

datatype ResolutionMethod = USER_ACTION | AUTO_RESOLVED | METHOD_DISMISSED

datatype Sensitivity = Strict | Balanced | Loose

datatype DeviceType = Desktop | Mobile | Tablet

datatype Number = Finite real | NaN

record Campaign =
  c_id :: string
  c_name :: string
  c_vertical :: CampaignVertical
  c_objective :: CampaignObjective
  c_dailyBudget :: real
  c_geos :: "string list"
  c_devices :: "DeviceType list"

text \<open>\<open>compositeConfig\<close> is the pair \<open>(n, m)\<close>: n of the last m data points must breach.\<close>

record Monitor =
  m_id :: string
  m_metricId :: string
  m_metricName :: string
  m_monitorType :: MonitorType
  m_enabled :: bool
  m_sensitivity :: Sensitivity
  m_compositeConfig :: "(int \<times> int) option"
  m_granularDimensions :: "string list option"

text \<open>The per-dimension sub-results: an object from key to \<open>{value, inAlarm}\<close>, in insertion order.\<close>

type_synonym DimensionalData = "(string \<times> (Number \<times> bool)) list"

record MonitorStateData =
  s_monitorId :: string
  s_state :: MonitorState
  s_currentValue :: real
  s_expectedValue :: Number
  s_anomalyScore :: Number
  s_enteredStateAt :: string
  s_dataPointsBreached :: "int option"
  s_dimensions :: "DimensionalData option"
  s_updatedAt :: string

text \<open>The insights payload is opaque to the engine; it is kept as a string.\<close>

record Alarm =
  a_id :: string
  a_monitorId :: string
  a_campaignId :: string
  a_campaignName :: string
  a_metricName :: string
  a_severity :: AlarmSeverity
  a_state :: AlarmState
  a_triggeredAt :: string
  a_resolvedAt :: "string option"
  a_resolutionMethod :: "ResolutionMethod option"
  a_estimatedImpactUSD :: Number
  a_currentValue :: real
  a_expectedValue :: Number
  a_deviationPercent :: Number
  a_dimensionalBreakdown :: "DimensionalData option"
  a_insights :: "string option"

text \<open>
  A stored sample. \<open>mv_timestamp\<close> is the value of \<open>new Date(timestamp).getTime()\<close>, the
  key the storage layer sorts by.
\<close>

record MetricValue =
  mv_campaignId :: string
  mv_metricId :: string
  mv_timestamp :: int
  mv_value :: real

section \<open>Threshold and severity helpers (utils/helpers)\<close>

definition getSensitivityThreshold :: "Sensitivity \<Rightarrow> real" where
  "getSensitivityThreshold sensitivity =
     (case sensitivity of Strict \<Rightarrow> 0.15 | Balanced \<Rightarrow> 0.25 | Loose \<Rightarrow> 0.40)"

definition calculateDeviation :: "real \<Rightarrow> real \<Rightarrow> real" where
  "calculateDeviation current expected =
     (if expected = 0 then 0 else ((current - expected) / expected) * 100)"

definition isInAlarm :: "real \<Rightarrow> real \<Rightarrow> Sensitivity \<Rightarrow> bool" where
  "isInAlarm current expected sensitivity =
     (let threshold = getSensitivityThreshold sensitivity;
          deviation = \<bar>calculateDeviation current expected\<bar> / 100
      in deviation > threshold)"

definition calculateSeverity :: "real \<Rightarrow> AlarmSeverity" where
  "calculateSeverity deviation =
     (let absDeviation = \<bar>deviation\<bar>
      in if absDeviation \<ge> 60 then CRITICAL
         else if absDeviation \<ge> 40 then HIGH
         else if absDeviation \<ge> 25 then MEDIUM
         else LOW)"

text \<open>
  The same helpers on arguments that may be NaN, as JavaScript evaluates them: arithmetic
  with NaN gives NaN and every comparison with NaN is false. \<open>expected === 0\<close> is tested
  before the current value is used.
\<close>

definition calculateDeviationN :: "Number \<Rightarrow> Number \<Rightarrow> Number" where
  "calculateDeviationN current expected =
     (case expected of
        NaN \<Rightarrow> NaN
      | Finite e \<Rightarrow>
          if e = 0 then Finite 0
          else (case current of NaN \<Rightarrow> NaN | Finite c \<Rightarrow> Finite (calculateDeviation c e)))"

definition isInAlarmN :: "Number \<Rightarrow> Number \<Rightarrow> Sensitivity \<Rightarrow> bool" where
  "isInAlarmN current expected sensitivity =
     (case calculateDeviationN current expected of
        NaN \<Rightarrow> False
      | Finite d \<Rightarrow> \<bar>d\<bar> / 100 > getSensitivityThreshold sensitivity)"

definition calculateSeverityN :: "Number \<Rightarrow> AlarmSeverity" where
  "calculateSeverityN deviation = (case deviation of NaN \<Rightarrow> LOW | Finite d \<Rightarrow> calculateSeverity d)"

text \<open>
  The threshold rule in the words of the specification: the deviation is
  \<open>(current - expected) / expected * 100\<close>, and 0 when expected is 0; a sample breaches
  when the magnitude of the deviation over 100 exceeds the tolerance of the sensitivity.
\<close>

definition spec_toleranceFor :: "Sensitivity \<Rightarrow> real" where
  "spec_toleranceFor s = (if s = Strict then 15 / 100 else if s = Balanced then 25 / 100 else 40 / 100)"

definition spec_deviation :: "real \<Rightarrow> real \<Rightarrow> real" where
  "spec_deviation current expected =
     (if expected = 0 then 0 else (current - expected) / expected * 100)"

definition spec_isBreaching :: "real \<Rightarrow> real \<Rightarrow> Sensitivity \<Rightarrow> bool" where
  "spec_isBreaching current expected s \<longleftrightarrow> \<bar>spec_deviation current expected\<bar> / 100 > spec_toleranceFor s"

section \<open>The environment of one evaluation\<close>

text \<open>
  Everything \<open>evaluateMonitor\<close> reads from outside its arguments and the record store:
  the clock, each call of \<open>Math.random()\<close>, the metric-values cookie, the identifier
  drawn by \<open>uuidv4()\<close> and the outcome of the insight call. \<open>e_sourceError\<close> is the
  exception raised by the metric-source read, if any; the simulated source of this
  repository never raises, so there it is \<open>None\<close>.
\<close>

record Env =
  e_sourceError :: "string option"
  e_hour :: int
  e_dayOfWeek :: int
  e_elapsedMs :: real
  e_noiseRandom :: real
  e_anomalyRandom :: real
  e_expectedRandom :: real
  e_granularRandom :: "nat \<Rightarrow> real"
  e_timestamp :: string
  e_savedAt :: string
  e_resolvedAt :: "string \<Rightarrow> string"
  e_metricValues :: "MetricValue list"
  e_uuid :: string
  e_insights :: "string + string"

section \<open>Metric simulation (services/simulation)\<close>

fun BASELINE_VALUES :: "CampaignVertical \<Rightarrow> CampaignObjective \<Rightarrow> (string \<times> real) list" where
  "BASELINE_VALUES E_commerce Performance =
     [(''impressions'', 100000), (''clicks'', 2500), (''conversions'', 100), (''ctr'', 2.5), (''cvr'', 4.0), (''cpa'', 30), (''cpm'', 5), (''cpc'', 0.5), (''viewability'', 75), (''invalid_traffic'', 2), (''spend'', 1250)]"
| "BASELINE_VALUES E_commerce Brand_Awareness =
     [(''impressions'', 500000), (''clicks'', 5000), (''conversions'', 50), (''ctr'', 1.0), (''cvr'', 1.0), (''cpm'', 10), (''viewability'', 80)]"
| "BASELINE_VALUES E_commerce Video =
     [(''impressions'', 200000), (''clicks'', 4000), (''ctr'', 2.0), (''cpm'', 15), (''viewability'', 70)]"
| "BASELINE_VALUES E_commerce App_Install =
     [(''impressions'', 150000), (''clicks'', 3000), (''conversions'', 150), (''ctr'', 2.0), (''cvr'', 5.0), (''cpa'', 25)]"
| "BASELINE_VALUES Finance Performance =
     [(''impressions'', 50000), (''clicks'', 250), (''conversions'', 5), (''ctr'', 0.5), (''cvr'', 2.0), (''cpa'', 100), (''cpm'', 12), (''cpc'', 2.0), (''viewability'', 80), (''invalid_traffic'', 1)]"
| "BASELINE_VALUES Finance Brand_Awareness =
     [(''impressions'', 300000), (''clicks'', 1500), (''ctr'', 0.5), (''cpm'', 15), (''viewability'', 85)]"
| "BASELINE_VALUES Finance Video =
     [(''impressions'', 100000), (''clicks'', 700), (''ctr'', 0.7), (''cpm'', 20)]"
| "BASELINE_VALUES Finance App_Install =
     [(''impressions'', 80000), (''clicks'', 600), (''conversions'', 30), (''ctr'', 0.75), (''cvr'', 5.0), (''cpa'', 80)]"
| "BASELINE_VALUES SaaS Performance =
     [(''impressions'', 75000), (''clicks'', 1200), (''conversions'', 36), (''ctr'', 1.6), (''cvr'', 3.0), (''cpa'', 50), (''cpm'', 8), (''cpc'', 1.5), (''viewability'', 78)]"
| "BASELINE_VALUES SaaS Brand_Awareness =
     [(''impressions'', 250000), (''clicks'', 2500), (''ctr'', 1.0), (''cpm'', 12)]"
| "BASELINE_VALUES SaaS Video =
     [(''impressions'', 150000), (''clicks'', 2000), (''ctr'', 1.3), (''cpm'', 18)]"
| "BASELINE_VALUES SaaS App_Install =
     [(''impressions'', 100000), (''clicks'', 1500), (''conversions'', 60), (''ctr'', 1.5), (''cvr'', 4.0), (''cpa'', 40)]"
| "BASELINE_VALUES Travel Performance =
     [(''impressions'', 120000), (''clicks'', 2400), (''conversions'', 60), (''ctr'', 2.0), (''cvr'', 2.5), (''cpa'', 40), (''cpm'', 6)]"
| "BASELINE_VALUES Travel Brand_Awareness =
     [(''impressions'', 400000), (''clicks'', 4000), (''ctr'', 1.0), (''cpm'', 10)]"
| "BASELINE_VALUES Travel Video =
     [(''impressions'', 200000), (''clicks'', 3000), (''ctr'', 1.5), (''cpm'', 14)]"
| "BASELINE_VALUES Travel App_Install =
     [(''impressions'', 150000), (''clicks'', 2250), (''conversions'', 90), (''ctr'', 1.5), (''cvr'', 4.0), (''cpa'', 35)]"
| "BASELINE_VALUES B2B Performance =
     [(''impressions'', 30000), (''clicks'', 450), (''conversions'', 15), (''ctr'', 1.5), (''cvr'', 3.3), (''cpa'', 120), (''cpm'', 15), (''cpc'', 4.0)]"
| "BASELINE_VALUES B2B Brand_Awareness =
     [(''impressions'', 150000), (''clicks'', 1500), (''ctr'', 1.0), (''cpm'', 18)]"
| "BASELINE_VALUES B2B Video =
     [(''impressions'', 80000), (''clicks'', 1000), (''ctr'', 1.25), (''cpm'', 22)]"
| "BASELINE_VALUES B2B App_Install =
     [(''impressions'', 50000), (''clicks'', 750), (''conversions'', 25), (''ctr'', 1.5), (''cvr'', 3.3), (''cpa'', 100)]"
| "BASELINE_VALUES Healthcare Performance =
     [(''impressions'', 60000), (''clicks'', 900), (''conversions'', 30), (''ctr'', 1.5), (''cvr'', 3.3), (''cpa'', 60), (''cpm'', 10)]"
| "BASELINE_VALUES Healthcare Brand_Awareness =
     [(''impressions'', 200000), (''clicks'', 2000), (''ctr'', 1.0), (''cpm'', 14)]"
| "BASELINE_VALUES Healthcare Video =
     [(''impressions'', 120000), (''clicks'', 1500), (''ctr'', 1.25), (''cpm'', 18)]"
| "BASELINE_VALUES Healthcare App_Install =
     [(''impressions'', 80000), (''clicks'', 1200), (''conversions'', 48), (''ctr'', 1.5), (''cvr'', 4.0), (''cpa'', 50)]"
| "BASELINE_VALUES Education Performance =
     [(''impressions'', 80000), (''clicks'', 1400), (''conversions'', 56), (''ctr'', 1.75), (''cvr'', 4.0), (''cpa'', 35), (''cpm'', 7)]"
| "BASELINE_VALUES Education Brand_Awareness =
     [(''impressions'', 300000), (''clicks'', 3000), (''ctr'', 1.0), (''cpm'', 11)]"
| "BASELINE_VALUES Education Video =
     [(''impressions'', 180000), (''clicks'', 2500), (''ctr'', 1.4), (''cpm'', 16)]"
| "BASELINE_VALUES Education App_Install =
     [(''impressions'', 120000), (''clicks'', 1800), (''conversions'', 72), (''ctr'', 1.5), (''cvr'', 4.0), (''cpa'', 42)]"

definition getHourMultiplier :: "int \<Rightarrow> bool \<Rightarrow> real" where
  "getHourMultiplier hour isB2B =
     (if isB2B then
        (if hour \<ge> 9 \<and> hour \<le> 17 then 1.2 else if hour \<ge> 0 \<and> hour < 6 then 0.3 else 0.7)
      else
        (if hour \<ge> 19 \<and> hour \<le> 22 then 1.3 else if hour \<ge> 0 \<and> hour < 6 then 0.4 else 1.0))"

definition getDayMultiplier :: "int \<Rightarrow> bool \<Rightarrow> real" where
  "getDayMultiplier dayOfWeek isB2B =
     (if isB2B then (if dayOfWeek = 0 \<or> dayOfWeek = 6 then 0.2 else 1.0)
      else (if dayOfWeek = 0 \<or> dayOfWeek = 6 then 1.1 else 1.0))"

text \<open>\<open>random\<close> is the value of the one \<open>Math.random()\<close> call of the function.\<close>

definition generateValue :: "real \<Rightarrow> int \<Rightarrow> int \<Rightarrow> bool \<Rightarrow> real \<Rightarrow> real \<Rightarrow> real" where
  "generateValue baseValue hour dayOfWeek isB2B noiseLevel random =
     (let hourMult = getHourMultiplier hour isB2B;
          dayMult = getDayMultiplier dayOfWeek isB2B;
          noise = 1 + (random - 0.5) * 2 * noiseLevel
      in baseValue * hourMult * dayMult * noise)"

definition charCodeSeed :: "string \<Rightarrow> nat" where
  "charCodeSeed metricId = foldl (\<lambda>acc char. acc + of_char char) 0 metricId"

text \<open>\<open>elapsedMs\<close> is \<open>Date.now() - timestamp.getTime()\<close>.\<close>

definition shouldGenerateAnomaly :: "string \<Rightarrow> real \<Rightarrow> bool" where
  "shouldGenerateAnomaly metricId elapsedMs =
     (let seed = charCodeSeed metricId;
          random = real (seed mod 100) / 100
      in if random > 0.2 then False
         else (let hoursAgo = elapsedMs / (1000 * 60 * 60) in hoursAgo \<le> 12))"

definition applyAnomaly :: "real \<Rightarrow> string \<Rightarrow> real \<Rightarrow> real" where
  "applyAnomaly val metricId random =
     (let seed = charCodeSeed metricId;
          anomalyType = seed mod 3
      in if anomalyType = 0 then val * (0.4 + random * 0.2)
         else if anomalyType = 1 then val * (1.5 + random * 0.5)
         else if anomalyType = 2 then val * 0.95
         else val)"

text \<open>
  The names that every object literal inherits from \<open>Object.prototype\<close>. Looking one of
  them up in a baseline object yields a function (an object for \<open>__proto__\<close>), which is
  truthy and, used as a factor, gives NaN.
\<close>

definition objectPrototypeKeys :: "string list" where
  "objectPrototypeKeys =
     [''constructor'', ''hasOwnProperty'', ''isPrototypeOf'', ''propertyIsEnumerable'',
      ''toLocaleString'', ''toString'', ''valueOf'', ''__proto__'',
      ''__defineGetter__'', ''__defineSetter__'', ''__lookupGetter__'', ''__lookupSetter__'']"

text \<open>
  Every vertical and objective has an entry in the table, so the fallback to the
  E-commerce/Performance entry of the source is never taken for a typed campaign.
  \<open>baseline[metricId] || 100\<close> yields the entry of the table, 100 for the entry 0 and for
  a name that is neither in the table nor inherited, and for an inherited name a value
  that is not a number (\<open>NaN\<close> here, as it becomes in the product that follows).
\<close>

definition baseValueOf :: "Campaign \<Rightarrow> string \<Rightarrow> Number" where
  "baseValueOf campaign metricId =
     (case map_of (BASELINE_VALUES (c_vertical campaign) (c_objective campaign)) metricId of
        None \<Rightarrow> if metricId \<in> set objectPrototypeKeys then NaN else Finite 100
      | Some b \<Rightarrow> if b = 0 then Finite 100 else Finite b)"

definition generateExpectedValue :: "Campaign \<Rightarrow> string \<Rightarrow> real \<Rightarrow> Number" where
  "generateExpectedValue campaign metricId random =
     (let baseValue = baseValueOf campaign metricId;
          adjustment = 0.9 + random * 0.2
      in case baseValue of NaN \<Rightarrow> NaN | Finite b \<Rightarrow> Finite (b * adjustment))"

definition generateCurrentMetricValue :: "Campaign \<Rightarrow> string \<Rightarrow> real \<Rightarrow> Env \<Rightarrow> real" where
  "generateCurrentMetricValue campaign metricId expectedValue env =
     (let hour = e_hour env;
          dayOfWeek = e_dayOfWeek env;
          isB2B = (c_vertical campaign = B2B \<or> c_vertical campaign = Healthcare);
          val = generateValue expectedValue hour dayOfWeek isB2B 0.15 (e_noiseRandom env);
          val' = (if shouldGenerateAnomaly (metricId @ c_id campaign) (e_elapsedMs env)
                  then applyAnomaly val (metricId @ c_id campaign) (e_anomalyRandom env)
                  else val)
      in max 0 val')"

section \<open>The record store (utils/storage)\<close>

text \<open>
  The cookies holding the monitor states and the alarms. Reading and writing a cookie is
  taken to succeed and to round-trip the stored JSON.
\<close>

record Store =
  monitorStates :: "MonitorStateData list"
  alarms :: "Alarm list"

definition emptyStore :: Store where
  "emptyStore = \<lparr>monitorStates = [], alarms = []\<rparr>"

text \<open>\<open>Array.prototype.findIndex\<close>: the first index whose element satisfies the test, else -1.\<close>

fun findIndex :: "('a \<Rightarrow> bool) \<Rightarrow> 'a list \<Rightarrow> int" where
  "findIndex P [] = -1"
| "findIndex P (x # xs) = (if P x then 0 else (let i = findIndex P xs in if i < 0 then -1 else i + 1))"

text \<open>
  \<open>Array.prototype.slice(start)\<close> with an integral start: a negative start counts from the
  end, and the start is clamped to the array.
\<close>

definition js_slice :: "int \<Rightarrow> 'a list \<Rightarrow> 'a list" where
  "js_slice start xs =
     (let len = int (length xs);
          k = (if start < 0 then max (len + start) 0 else min start len)
      in drop (nat k) xs)"

definition getMonitorState :: "string \<Rightarrow> Store \<Rightarrow> MonitorStateData option" where
  "getMonitorState monitorId st = find (\<lambda>s. s_monitorId s = monitorId) (monitorStates st)"

text \<open>
  \<open>saveMonitorState\<close> stamps \<open>updatedAt\<close> on the object it is given, which the caller keeps
  using; the stamped state is returned with the new store.
\<close>

definition saveMonitorState :: "MonitorStateData \<Rightarrow> string \<Rightarrow> Store \<Rightarrow> MonitorStateData \<times> Store" where
  "saveMonitorState state now st =
     (let states = monitorStates st;
          index = findIndex (\<lambda>s. s_monitorId s = s_monitorId state) states;
          state' = state\<lparr>s_updatedAt := now\<rparr>;
          states' = (if index \<ge> 0 then states[nat index := state'] else states @ [state'])
      in (state', st\<lparr>monitorStates := states'\<rparr>))"

definition saveAlarm :: "Alarm \<Rightarrow> Store \<Rightarrow> Store" where
  "saveAlarm alarm st =
     (let als = alarms st;
          index = findIndex (\<lambda>a. a_id a = a_id alarm) als
      in st\<lparr>alarms := (if index \<ge> 0 then als[nat index := alarm] else als @ [alarm])\<rparr>)"

text \<open>The stored samples of one campaign and metric, sorted by time (the sort is stable).\<close>

definition getMetricValuesByCampaignAndMetric :: "string \<Rightarrow> string \<Rightarrow> MetricValue list \<Rightarrow> MetricValue list" where
  "getMetricValuesByCampaignAndMetric campaignId metricId values =
     sort_key mv_timestamp
       (filter (\<lambda>v. mv_campaignId v = campaignId \<and> mv_metricId v = metricId) values)"

section \<open>Monitor evaluation and alarm lifecycle (services/anomaly)\<close>

definition evaluateCompositeCondition ::
  "Monitor \<Rightarrow> Campaign \<Rightarrow> real \<Rightarrow> Number \<Rightarrow> MetricValue list \<Rightarrow> bool \<times> int" where
  "evaluateCompositeCondition monitor campaign currentValue expectedValue values =
     (case m_compositeConfig monitor of
        None \<Rightarrow> (False, 0)
      | Some (n, m) \<Rightarrow>
          (let historicalValues =
                 js_slice (- m + 1)
                   (getMetricValuesByCampaignAndMetric (c_id campaign) (m_metricId monitor) values);
               allValues = map mv_value historicalValues @ [currentValue];
               breachCount =
                 int (length (filter (\<lambda>v. isInAlarmN (Finite v) expectedValue (m_sensitivity monitor))
                                (js_slice (- m) allValues)))
           in (breachCount \<ge> n, breachCount)))"

definition deviceName :: "DeviceType \<Rightarrow> string" where
  "deviceName d = (case d of Desktop \<Rightarrow> ''Desktop'' | Mobile \<Rightarrow> ''Mobile'' | Tablet \<Rightarrow> ''Tablet'')"

text \<open>
  One iteration of the inner loops of \<open>evaluateGranularDimensions\<close>: three calls of
  \<open>Math.random()\<close>, numbered from \<open>k\<close>, and an assignment to the key.
\<close>

definition granularEntry ::
  "Monitor \<Rightarrow> Campaign \<Rightarrow> (nat \<Rightarrow> real) \<Rightarrow> DimensionalData \<times> nat \<Rightarrow> string \<Rightarrow> DimensionalData \<times> nat" where
  "granularEntry monitor campaign rnd acc key =
     (let (dimensionalData, k) = acc;
          baseValue = generateExpectedValue campaign (m_metricId monitor) (rnd k);
          val = (case baseValue of NaN \<Rightarrow> NaN | Finite b \<Rightarrow> Finite (b * (0.8 + rnd (k + 1) * 0.4)))
      in (AList.update key (val, rnd (k + 2) > 0.7) dimensionalData, k + 3))"

definition evaluateGranularDimensions :: "Monitor \<Rightarrow> Campaign \<Rightarrow> (nat \<Rightarrow> real) \<Rightarrow> DimensionalData" where
  "evaluateGranularDimensions monitor campaign rnd =
     (case m_granularDimensions monitor of
        None \<Rightarrow> []
      | Some dims \<Rightarrow>
          fst (foldl (\<lambda>acc dimension.
                 (let acc1 = (if dimension = ''device''
                              then foldl (\<lambda>a device. granularEntry monitor campaign rnd a (''device_'' @ deviceName device))
                                     acc (c_devices campaign)
                              else acc)
                  in if dimension = ''geo''
                     then foldl (\<lambda>a geo. granularEntry monitor campaign rnd a (''geo_'' @ geo))
                            acc1 (c_geos campaign)
                     else acc1))
               ([], 0) dims))"

definition calculateEstimatedImpact :: "Campaign \<Rightarrow> Monitor \<Rightarrow> real \<Rightarrow> real" where
  "calculateEstimatedImpact campaign monitor deviationPercent =
     (let dailyBudget = c_dailyBudget campaign;
          metricId = m_metricId monitor
      in if metricId = ''cpa'' then
           (if deviationPercent > 0 then (dailyBudget * \<bar>deviationPercent\<bar>) / 100 else 0)
         else if metricId = ''ctr'' \<or> metricId = ''cvr'' then
           (if deviationPercent < 0 then (dailyBudget * \<bar>deviationPercent\<bar> * 0.5) / 100 else 0)
         else if metricId = ''impressions'' \<or> metricId = ''clicks'' then
           (if deviationPercent < 0 then (dailyBudget * \<bar>deviationPercent\<bar> * 0.3) / 100 else 0)
         else if metricId = ''spend'' then
           (dailyBudget * \<bar>deviationPercent\<bar>) / 100
         else if metricId = ''invalid_traffic'' then
           (if deviationPercent > 0 then (dailyBudget * \<bar>deviationPercent\<bar>) / 100 else 0)
         else (dailyBudget * \<bar>deviationPercent\<bar> * 0.2) / 100)"

text \<open>
  The same function on a deviation that may be NaN: the comparisons of the guarded cases
  fail and give 0, the products give NaN.
\<close>

definition calculateEstimatedImpactN :: "Campaign \<Rightarrow> Monitor \<Rightarrow> Number \<Rightarrow> Number" where
  "calculateEstimatedImpactN campaign monitor deviationPercent =
     (case deviationPercent of
        Finite d \<Rightarrow> Finite (calculateEstimatedImpact campaign monitor d)
      | NaN \<Rightarrow>
          (let metricId = m_metricId monitor
           in if metricId = ''cpa'' then Finite 0
              else if metricId = ''ctr'' \<or> metricId = ''cvr'' then Finite 0
              else if metricId = ''impressions'' \<or> metricId = ''clicks'' then Finite 0
              else if metricId = ''spend'' then NaN
              else if metricId = ''invalid_traffic'' then Finite 0
              else NaN))"

text \<open>
  The alarm object of \<open>createAlarmFromMonitor\<close>. The insight call is awaited inside a
  try/catch: when it throws (\<open>Inl\<close>), the alarm is saved without insights.
\<close>

definition buildAlarm :: "Monitor \<Rightarrow> Campaign \<Rightarrow> MonitorStateData \<Rightarrow> Env \<Rightarrow> Alarm" where
  "buildAlarm monitor campaign state env =
     (let deviation = calculateDeviationN (Finite (s_currentValue state)) (s_expectedValue state);
          severity = calculateSeverityN deviation
      in \<lparr>a_id = e_uuid env,
          a_monitorId = m_id monitor,
          a_campaignId = c_id campaign,
          a_campaignName = c_name campaign,
          a_metricName = m_metricName monitor,
          a_severity = severity,
          a_state = ACTIVE,
          a_triggeredAt = s_enteredStateAt state,
          a_resolvedAt = None,
          a_resolutionMethod = None,
          a_estimatedImpactUSD = calculateEstimatedImpactN campaign monitor deviation,
          a_currentValue = s_currentValue state,
          a_expectedValue = s_expectedValue state,
          a_deviationPercent = deviation,
          a_dimensionalBreakdown = s_dimensions state,
          a_insights = (case e_insights env of Inr insights \<Rightarrow> Some insights | Inl err \<Rightarrow> None)\<rparr>)"

definition createAlarmFromMonitor :: "Monitor \<Rightarrow> Campaign \<Rightarrow> MonitorStateData \<Rightarrow> Env \<Rightarrow> Store \<Rightarrow> Alarm \<times> Store" where
  "createAlarmFromMonitor monitor campaign state env st =
     (let alarm = buildAlarm monitor campaign state env in (alarm, saveAlarm alarm st))"

text \<open>\<open>previousState?.state === 'IN_ALARM'\<close>.\<close>

definition wasInAlarm :: "MonitorStateData option \<Rightarrow> bool" where
  "wasInAlarm previousState = (case previousState of None \<Rightarrow> False | Some p \<Rightarrow> s_state p = IN_ALARM)"

text \<open>
  The state object as first built by \<open>evaluateMonitor\<close>. \<open>previousState?.enteredStateAt || timestamp\<close>
  falls back to the timestamp when there is no previous state or its field is the empty string.
\<close>

definition initialNewState ::
  "Monitor \<Rightarrow> real \<Rightarrow> Number \<Rightarrow> string \<Rightarrow> MonitorStateData option \<Rightarrow> MonitorStateData" where
  "initialNewState monitor currentValue expectedValue timestamp previousState =
     (let deviation = calculateDeviationN (Finite currentValue) expectedValue;
          inAlarm = isInAlarmN (Finite currentValue) expectedValue (m_sensitivity monitor);
          anomalyScore =
            (case deviation of
               NaN \<Rightarrow> NaN
             | Finite d \<Rightarrow> Finite (\<bar>d\<bar> / 100 / getSensitivityThreshold (m_sensitivity monitor)))
      in \<lparr>s_monitorId = m_id monitor,
          s_state = (if inAlarm then IN_ALARM else OK),
          s_currentValue = currentValue,
          s_expectedValue = expectedValue,
          s_anomalyScore = anomalyScore,
          s_enteredStateAt =
            (if inAlarm \<and> \<not> wasInAlarm previousState then timestamp
             else (case previousState of
                     None \<Rightarrow> timestamp
                   | Some p \<Rightarrow> if s_enteredStateAt p = [] then timestamp else s_enteredStateAt p)),
          s_dataPointsBreached = None,
          s_dimensions = None,
          s_updatedAt = timestamp\<rparr>)"

text \<open>The state after the composite and granular branches, before it is saved.\<close>

definition computeNewState :: "Monitor \<Rightarrow> Campaign \<Rightarrow> Env \<Rightarrow> MonitorStateData option \<Rightarrow> MonitorStateData" where
  "computeNewState monitor campaign env previousState =
     (let currentValue = generateCurrentMetricValue campaign (m_metricId monitor) 0 env;
          expectedValue = generateExpectedValue campaign (m_metricId monitor) (e_expectedRandom env);
          newState = initialNewState monitor currentValue expectedValue (e_timestamp env) previousState;
          newState1 =
            (if m_monitorType monitor = COMPOSITE \<and> m_compositeConfig monitor \<noteq> None
             then (let (breached, count) =
                         evaluateCompositeCondition monitor campaign currentValue expectedValue
                           (e_metricValues env)
                   in newState\<lparr>s_dataPointsBreached := Some count,
                                s_state := (if breached then IN_ALARM else OK)\<rparr>)
             else newState)
      in if m_monitorType monitor = GRANULAR \<and> m_granularDimensions monitor \<noteq> None
         then newState1\<lparr>s_dimensions := Some (evaluateGranularDimensions monitor campaign (e_granularRandom env))\<rparr>
         else newState1)"

text \<open>
  \<open>evaluateMonitor\<close> returns the new state and the alarm it created, if any, or the
  exception of the metric-source read (\<open>Inl\<close>), together with the store it leaves.
\<close>

definition evaluateMonitor ::
  "Monitor \<Rightarrow> Campaign \<Rightarrow> Env \<Rightarrow> Store \<Rightarrow> (string + MonitorStateData \<times> Alarm option) \<times> Store" where
  "evaluateMonitor monitor campaign env st =
     (case e_sourceError env of
        Some err \<Rightarrow> (Inl err, st)
      | None \<Rightarrow>
          (let previousState = getMonitorState (m_id monitor) st;
               (newState, st1) = saveMonitorState (computeNewState monitor campaign env previousState)
                                   (e_savedAt env) st
           in if s_state newState = IN_ALARM \<and> \<not> wasInAlarm previousState
              then (let (alarm, st2) = createAlarmFromMonitor monitor campaign newState env st1
                    in (Inr (newState, Some alarm), st2))
              else (Inr (newState, None), st1)))"

definition resolveAlarm :: "string \<Rightarrow> ResolutionMethod \<Rightarrow> string \<Rightarrow> Store \<Rightarrow> Store" where
  "resolveAlarm alarmId method now st =
     (case find (\<lambda>a. a_id a = alarmId) (alarms st) of
        None \<Rightarrow> st
      | Some alarm \<Rightarrow>
          if a_state alarm = ACTIVE
          then saveAlarm (alarm\<lparr>a_state := RESOLVED, a_resolvedAt := Some now,
                                a_resolutionMethod := Some method\<rparr>) st
          else st)"

definition dismissAlarm :: "string \<Rightarrow> string \<Rightarrow> Store \<Rightarrow> Store" where
  "dismissAlarm alarmId now st =
     (case find (\<lambda>a. a_id a = alarmId) (alarms st) of
        None \<Rightarrow> st
      | Some alarm \<Rightarrow>
          if a_state alarm = ACTIVE
          then saveAlarm (alarm\<lparr>a_state := DISMISSED, a_resolvedAt := Some now,
                                a_resolutionMethod := Some METHOD_DISMISSED\<rparr>) st
          else st)"

text \<open>\<open>clock\<close> gives the time read by the \<open>resolveAlarm\<close> call for each alarm id.\<close>

definition autoResolveAlarms :: "Monitor \<Rightarrow> MonitorStateData \<Rightarrow> (string \<Rightarrow> string) \<Rightarrow> Store \<Rightarrow> Store" where
  "autoResolveAlarms monitor state clock st =
     (if s_state state = OK
      then (let activeAlarms = filter (\<lambda>a. a_monitorId a = m_id monitor \<and> a_state a = ACTIVE) (alarms st)
            in foldl (\<lambda>s alarm. resolveAlarm (a_id alarm) AUTO_RESOLVED (clock (a_id alarm)) s)
                 st activeAlarms)
      else st)"

text \<open>
  The loop of \<open>evaluateAllMonitors\<close>, with the two result arrays as accumulators. Each
  monitor comes with the environment of its evaluation. There is no try/catch around the
  awaited call: an exception leaves the loop and the function.
\<close>

fun evaluateLoop ::
  "Campaign \<Rightarrow> (Monitor \<times> Env) list \<Rightarrow> MonitorStateData list \<Rightarrow> Alarm list \<Rightarrow> Store
     \<Rightarrow> (string + MonitorStateData list \<times> Alarm list) \<times> Store" where
  "evaluateLoop campaign [] states newAlarms st = (Inr (states, newAlarms), st)"
| "evaluateLoop campaign ((monitor, env) # rest) states newAlarms st =
     (if \<not> m_enabled monitor then evaluateLoop campaign rest states newAlarms st
      else (case evaluateMonitor monitor campaign env st of
              (Inl err, st1) \<Rightarrow> (Inl err, st1)
            | (Inr (state, alarm), st1) \<Rightarrow>
                evaluateLoop campaign rest (states @ [state])
                  (case alarm of None \<Rightarrow> newAlarms | Some a \<Rightarrow> newAlarms @ [a])
                  (autoResolveAlarms monitor state (e_resolvedAt env) st1)))"

definition evaluateAllMonitors ::
  "Campaign \<Rightarrow> (Monitor \<times> Env) list \<Rightarrow> Store \<Rightarrow> (string + MonitorStateData list \<times> Alarm list) \<times> Store" where
  "evaluateAllMonitors campaign monitors st = evaluateLoop campaign monitors [] [] st"

section \<open>Sequences of engine operations\<close>

datatype EngineOp =
    EvaluateMonitor Monitor Campaign Env
  | EvaluateAllMonitors Campaign "(Monitor \<times> Env) list"
  | ResolveAlarm string ResolutionMethod string
  | DismissAlarm string string

fun applyOp :: "Store \<Rightarrow> EngineOp \<Rightarrow> Store" where
  "applyOp st (EvaluateMonitor monitor campaign env) = snd (evaluateMonitor monitor campaign env st)"
| "applyOp st (EvaluateAllMonitors campaign monitors) = snd (evaluateAllMonitors campaign monitors st)"
| "applyOp st (ResolveAlarm alarmId method now) = resolveAlarm alarmId method now st"
| "applyOp st (DismissAlarm alarmId now) = dismissAlarm alarmId now st"

definition runOps :: "EngineOp list \<Rightarrow> Store \<Rightarrow> Store" where
  "runOps ops st = foldl applyOp st ops"

fun isBareEvaluate :: "EngineOp \<Rightarrow> bool" where
  "isBareEvaluate (EvaluateMonitor monitor campaign env) = True"
| "isBareEvaluate _ = False"

definition activeAlarmsOf :: "string \<Rightarrow> Store \<Rightarrow> Alarm list" where
  "activeAlarmsOf monitorId st = filter (\<lambda>a. a_monitorId a = monitorId \<and> a_state a = ACTIVE) (alarms st)"

definition activeCount :: "string \<Rightarrow> Store \<Rightarrow> nat" where
  "activeCount monitorId st = length (activeAlarmsOf monitorId st)"

definition getAlarm :: "string \<Rightarrow> Store \<Rightarrow> Alarm option" where
  "getAlarm alarmId st = find (\<lambda>a. a_id a = alarmId) (alarms st)"

section \<open>Auxiliary notions for the proofs\<close>

text \<open>What the find-index-then-assign-or-push idiom of the storage layer computes.\<close>

fun upsert :: "('a \<Rightarrow> bool) \<Rightarrow> 'a \<Rightarrow> 'a list \<Rightarrow> 'a list" where
  "upsert P x [] = [x]"
| "upsert P x (y # ys) = (if P y then x # ys else y # upsert P x ys)"


text \<open>An active alarm as \<open>resolveAlarm\<close> and \<open>dismissAlarm\<close> leave it at time \<open>now\<close>.\<close>

definition resolved :: "ResolutionMethod \<Rightarrow> string \<Rightarrow> Alarm \<Rightarrow> Alarm" where
  "resolved method now a =
     a\<lparr>a_state := RESOLVED, a_resolvedAt := Some now, a_resolutionMethod := Some method\<rparr>"

definition dismissed :: "string \<Rightarrow> Alarm \<Rightarrow> Alarm" where
  "dismissed now a =
     a\<lparr>a_state := DISMISSED, a_resolvedAt := Some now, a_resolutionMethod := Some METHOD_DISMISSED\<rparr>"



text \<open>The state \<open>evaluateMonitor\<close> stores and returns: computed from the stored one, then stamped.\<close>

definition newStateOf :: "Monitor \<Rightarrow> Campaign \<Rightarrow> Env \<Rightarrow> Store \<Rightarrow> MonitorStateData" where
  "newStateOf monitor campaign env st =
     (computeNewState monitor campaign env (getMonitorState (m_id monitor) st))\<lparr>s_updatedAt := e_savedAt env\<rparr>"

text \<open>
  The invariant of the stores written by whole batches: alarm ids are unique, an active
  alarm belongs to a monitor whose stored state is IN_ALARM, and no monitor has two.
\<close>

definition storeInv :: "Store \<Rightarrow> bool" where
  "storeInv st \<longleftrightarrow>
     distinct (map a_id (alarms st))
     \<and> (\<forall>a\<in>set (alarms st). a_state a = ACTIVE \<longrightarrow> wasInAlarm (getMonitorState (a_monitorId a) st))
     \<and> (\<forall>monitorId. activeCount monitorId st \<le> 1)"

section \<open>Example data\<close>

definition demoAlarm :: "string \<Rightarrow> string \<Rightarrow> AlarmState \<Rightarrow> string option \<Rightarrow> ResolutionMethod option \<Rightarrow> Alarm" where
  "demoAlarm alarmId monitorId alarmState resolvedAt method =
     \<lparr>a_id = alarmId, a_monitorId = monitorId, a_campaignId = ''c1'', a_campaignName = ''Spring Sale'',
      a_metricName = ''ctr'', a_severity = CRITICAL, a_state = alarmState, a_triggeredAt = ''T0'',
      a_resolvedAt = resolvedAt, a_resolutionMethod = method, a_estimatedImpactUSD = Finite 500,
      a_currentValue = 0, a_expectedValue = Finite (5 / 2), a_deviationPercent = Finite (- 100),
      a_dimensionalBreakdown = None, a_insights = None\<rparr>"

text \<open>A store with an alarm dismissed at T1 and an active alarm of another monitor.\<close>

definition demoStore :: Store where
  "demoStore =
     \<lparr>monitorStates = [],
      alarms = [demoAlarm ''a1'' ''m1'' DISMISSED (Some ''T1'') (Some METHOD_DISMISSED),
                demoAlarm ''a2'' ''m2'' ACTIVE None None]\<rparr>"

definition demoCampaign :: Campaign where
  "demoCampaign =
     \<lparr>c_id = ''c1'', c_name = ''Spring Sale'', c_vertical = E_commerce, c_objective = Performance,
      c_dailyBudget = 1000, c_geos = [''US''], c_devices = [Desktop, Mobile]\<rparr>"

definition demoMonitor :: "string \<Rightarrow> string \<Rightarrow> MonitorType \<Rightarrow> (int \<times> int) option \<Rightarrow> Monitor" where
  "demoMonitor monitorId metricId monitorType config =
     \<lparr>m_id = monitorId, m_metricId = metricId, m_metricName = metricId,
      m_monitorType = monitorType, m_enabled = True, m_sensitivity = Balanced,
      m_compositeConfig = config, m_granularDimensions = None\<rparr>"

text \<open>The CTR monitor created by default: 2 of the last 3 data points.\<close>

definition ctrComposite :: Monitor where
  "ctrComposite = demoMonitor ''m1'' ''ctr'' COMPOSITE (Some (2, 3))"

definition sample :: "int \<Rightarrow> real \<Rightarrow> MetricValue" where
  "sample t v = \<lparr>mv_campaignId = ''c1'', mv_metricId = ''ctr'', mv_timestamp = t, mv_value = v\<rparr>"

text \<open>
  An environment at Monday noon in which every random draw is 1/2, so that the expected
  value is the baseline itself, with the given clock reading, stored samples and uuid.
\<close>

definition demoEnv :: "string \<Rightarrow> MetricValue list \<Rightarrow> string \<Rightarrow> Env" where
  "demoEnv now values uuid =
     \<lparr>e_sourceError = None, e_hour = 12, e_dayOfWeek = 1, e_elapsedMs = 0,
      e_noiseRandom = 1 / 2, e_anomalyRandom = 1 / 2, e_expectedRandom = 1 / 2,
      e_granularRandom = (\<lambda>k. 1 / 2),
      e_timestamp = now, e_savedAt = now, e_resolvedAt = (\<lambda>alarmId. now),
      e_metricValues = values, e_uuid = uuid, e_insights = Inr ''insights''\<rparr>"

definition cpaSimple :: Monitor where
  "cpaSimple = demoMonitor ''m2'' ''cpa'' SIMPLE None"

text \<open>An evaluation whose metric-source read raises.\<close>

definition failingEnv :: Env where
  "failingEnv = (demoEnv ''2024-05-01T10:00:00.000Z'' [] ''a0'')\<lparr>e_sourceError := Some ''metric source unavailable''\<rparr>"

text \<open>Stored CTR samples with one breaching value (5 against 2.5) and with none.\<close>

definition breachingHistory :: "MetricValue list" where
  "breachingHistory = [sample 1 5, sample 2 2.5]"

definition calmHistory :: "MetricValue list" where
  "calmHistory = [sample 1 2.4, sample 2 2.5]"

text \<open>
  Stored CTR samples whose first value, 3.2, breaches against the expected value 2.25
  (the draw 0) and not against 2.7 (the draw 0.9).
\<close>

definition swingHistory :: "MetricValue list" where
  "swingHistory = [sample 1 3.2, sample 2 2.5]"

text \<open>The environment \<open>demoEnv\<close> with the given value of the draw of \<open>generateExpectedValue\<close>.\<close>

definition drawEnv :: "string \<Rightarrow> MetricValue list \<Rightarrow> string \<Rightarrow> real \<Rightarrow> Env" where
  "drawEnv now values uuid random = (demoEnv now values uuid)\<lparr>e_expectedRandom := random\<rparr>"

text \<open>
  A store in which two alarms of the monitor m1 carry the same id, the first resolved by
  the user and the second active; the engine never writes such a store.
\<close>

definition duplicateIdStore :: Store where
  "duplicateIdStore =
     \<lparr>monitorStates =
        [\<lparr>s_monitorId = ''m1'', s_state = IN_ALARM, s_currentValue = 0, s_expectedValue = Finite (5 / 2),
          s_anomalyScore = Finite 4, s_enteredStateAt = ''2024-05-01T09:00:00.000Z'',
          s_dataPointsBreached = Some 2, s_dimensions = None,
          s_updatedAt = ''2024-05-01T09:00:00.000Z''\<rparr>],
      alarms = [demoAlarm ''a1'' ''m1'' RESOLVED (Some ''2024-05-01T08:00:00.000Z'') (Some USER_ACTION),
                demoAlarm ''a1'' ''m1'' ACTIVE None None]\<rparr>"



text \<open>
  An evaluation at the same clock time as \<open>demoEnv\<close>, with the same history, identifier and
  draws of \<open>generateExpectedValue\<close> and \<open>evaluateGranularDimensions\<close>, in which everything
  read by \<open>generateCurrentMetricValue\<close> differs.
\<close>

definition otherEnv :: Env where
  "otherEnv =
     (demoEnv ''2024-05-01T10:00:00.000Z'' breachingHistory ''a1'')
       \<lparr>e_hour := 3, e_dayOfWeek := 6, e_elapsedMs := 86400000, e_noiseRandom := 1 / 10,
        e_anomalyRandom := 0\<rparr>"

section \<open>Threshold, severity and impact\<close>

text \<open>
  Claim C7. \<open>isInAlarm\<close> holds exactly when the magnitude of the deviation, divided by 100,
  exceeds the tolerance of the sensitivity (0.15, 0.25, 0.40), the deviation being 0 for an
  expected value of 0 and \<open>(current - expected) / expected * 100\<close> otherwise; this is the
  rule of the specification. With expected 100 and Balanced, 126 breaches and 124 does not.
\<close>

theorem isInAlarm_threshold:
  "(isInAlarm current expected sensitivity \<longleftrightarrow>
      \<bar>if expected = 0 then 0 else (current - expected) / expected * 100\<bar> / 100
        > (case sensitivity of Strict \<Rightarrow> 0.15 | Balanced \<Rightarrow> 0.25 | Loose \<Rightarrow> 0.40))
   \<and> isInAlarm current expected sensitivity = spec_isBreaching current expected sensitivity
   \<and> isInAlarm 126 100 Balanced \<and> \<not> isInAlarm 124 100 Balanced"
  by (cases sensitivity)
     (simp_all add: isInAlarm_def calculateDeviation_def getSensitivityThreshold_def
        spec_isBreaching_def spec_deviation_def spec_toleranceFor_def)

text \<open>
  Claim C8. \<open>calculateSeverity\<close> bands the magnitude of the deviation with inclusive lower
  bounds: at least 60 is CRITICAL, from 40 up to 60 HIGH, from 25 up to 40 MEDIUM, below 25
  LOW; so 60 is CRITICAL, 59.9 HIGH, 39.9 MEDIUM, 25 MEDIUM and 24.9 LOW.
\<close>

theorem calculateSeverity_bands:
  "(\<bar>d\<bar> \<ge> 60 \<longrightarrow> calculateSeverity d = CRITICAL)
   \<and> (40 \<le> \<bar>d\<bar> \<and> \<bar>d\<bar> < 60 \<longrightarrow> calculateSeverity d = HIGH)
   \<and> (25 \<le> \<bar>d\<bar> \<and> \<bar>d\<bar> < 40 \<longrightarrow> calculateSeverity d = MEDIUM)
   \<and> (\<bar>d\<bar> < 25 \<longrightarrow> calculateSeverity d = LOW)
   \<and> calculateSeverity 60 = CRITICAL \<and> calculateSeverity 59.9 = HIGH
   \<and> calculateSeverity 39.9 = MEDIUM \<and> calculateSeverity 25 = MEDIUM
   \<and> calculateSeverity 24.9 = LOW"
  by (simp add: calculateSeverity_def)

theorem calculateSeverity_bands_witness:
  "\<bar>-75::real\<bar> \<ge> 60 \<and> calculateSeverity (-75) = CRITICAL
   \<and> 40 \<le> \<bar>45::real\<bar> \<and> \<bar>45::real\<bar> < 60 \<and> calculateSeverity 45 = HIGH
   \<and> 25 \<le> \<bar>-30::real\<bar> \<and> \<bar>-30::real\<bar> < 40 \<and> calculateSeverity (-30) = MEDIUM
   \<and> \<bar>10::real\<bar> < 25 \<and> calculateSeverity 10 = LOW"
  using calculateSeverity_bands [of "-75"] calculateSeverity_bands [of 45]
    calculateSeverity_bands [of "-30"] calculateSeverity_bands [of 10]
  by simp

lemma calculateEstimatedImpact_nonneg:
  "0 \<le> c_dailyBudget campaign \<Longrightarrow> 0 \<le> calculateEstimatedImpact campaign monitor d"
  unfolding calculateEstimatedImpact_def Let_def
  by (auto simp: mult_le_0_iff)

text \<open>
  Claim C9. For a campaign with a non-negative daily budget B, the estimated impact is
  B |d| / 100 for cpa when d is positive, B |d| 0.5 / 100 for ctr and cvr when d is negative,
  B |d| 0.3 / 100 for impressions and clicks when d is negative, B |d| / 100 for spend with
  either sign, B |d| / 100 for invalid_traffic when d is positive, 0 in the other cases of
  these metrics, and B |d| 0.2 / 100 for every other metric. It is never negative, and it
  is 400 for B = 1000, cpa and d = 40.
\<close>

theorem calculateEstimatedImpact_rules:
  assumes "0 \<le> c_dailyBudget campaign"
  shows "(m_metricId monitor = ''cpa'' \<longrightarrow>
            calculateEstimatedImpact campaign monitor d =
              (if d > 0 then c_dailyBudget campaign * \<bar>d\<bar> / 100 else 0))
    \<and> (m_metricId monitor \<in> {''ctr'', ''cvr''} \<longrightarrow>
            calculateEstimatedImpact campaign monitor d =
              (if d < 0 then c_dailyBudget campaign * \<bar>d\<bar> * 0.5 / 100 else 0))
    \<and> (m_metricId monitor \<in> {''impressions'', ''clicks''} \<longrightarrow>
            calculateEstimatedImpact campaign monitor d =
              (if d < 0 then c_dailyBudget campaign * \<bar>d\<bar> * 0.3 / 100 else 0))
    \<and> (m_metricId monitor = ''spend'' \<longrightarrow>
            calculateEstimatedImpact campaign monitor d = c_dailyBudget campaign * \<bar>d\<bar> / 100)
    \<and> (m_metricId monitor = ''invalid_traffic'' \<longrightarrow>
            calculateEstimatedImpact campaign monitor d =
              (if d > 0 then c_dailyBudget campaign * \<bar>d\<bar> / 100 else 0))
    \<and> (m_metricId monitor \<notin> {''cpa'', ''ctr'', ''cvr'', ''impressions'', ''clicks'', ''spend'', ''invalid_traffic''} \<longrightarrow>
            calculateEstimatedImpact campaign monitor d = c_dailyBudget campaign * \<bar>d\<bar> * 0.2 / 100)
    \<and> calculateEstimatedImpact campaign monitor d \<ge> 0
    \<and> (c_dailyBudget campaign = 1000 \<and> m_metricId monitor = ''cpa'' \<and> d = 40 \<longrightarrow>
            calculateEstimatedImpact campaign monitor d = 400)"
  using calculateEstimatedImpact_nonneg [OF assms, of monitor d]
  by (simp add: calculateEstimatedImpact_def Let_def)

theorem calculateEstimatedImpact_rules_witness:
  "0 \<le> c_dailyBudget demoCampaign
   \<and> calculateEstimatedImpact demoCampaign (demoMonitor ''m'' ''cpa'' SIMPLE None) 40 = 400
   \<and> calculateEstimatedImpact demoCampaign (demoMonitor ''m'' ''cpa'' SIMPLE None) (-40) = 0
   \<and> calculateEstimatedImpact demoCampaign (demoMonitor ''m'' ''ctr'' SIMPLE None) (-50) = 250
   \<and> calculateEstimatedImpact demoCampaign (demoMonitor ''m'' ''clicks'' SIMPLE None) (-50) = 150
   \<and> calculateEstimatedImpact demoCampaign (demoMonitor ''m'' ''spend'' SIMPLE None) (-50) = 500
   \<and> calculateEstimatedImpact demoCampaign (demoMonitor ''m'' ''invalid_traffic'' SIMPLE None) 10 = 100
   \<and> calculateEstimatedImpact demoCampaign (demoMonitor ''m'' ''cpm'' SIMPLE None) (-50) = 100"
proof -
  have b: "0 \<le> c_dailyBudget demoCampaign" by (simp add: demoCampaign_def)
  show ?thesis
    using b
      calculateEstimatedImpact_rules [OF b, of "demoMonitor ''m'' ''cpa'' SIMPLE None" 40]
      calculateEstimatedImpact_rules [OF b, of "demoMonitor ''m'' ''cpa'' SIMPLE None" "-40"]
      calculateEstimatedImpact_rules [OF b, of "demoMonitor ''m'' ''ctr'' SIMPLE None" "-50"]
      calculateEstimatedImpact_rules [OF b, of "demoMonitor ''m'' ''clicks'' SIMPLE None" "-50"]
      calculateEstimatedImpact_rules [OF b, of "demoMonitor ''m'' ''spend'' SIMPLE None" "-50"]
      calculateEstimatedImpact_rules [OF b, of "demoMonitor ''m'' ''invalid_traffic'' SIMPLE None" 10]
      calculateEstimatedImpact_rules [OF b, of "demoMonitor ''m'' ''cpm'' SIMPLE None" "-50"]
    by (simp add: demoCampaign_def demoMonitor_def)
qed

subsection \<open>Metric ids that name an inherited property\<close>

text \<open>
  For a metric id such as \<open>toString\<close> the lookup in the baseline object finds the inherited
  function, the expected value is NaN, no comparison with it holds, and the monitor is
  evaluated to OK without an alarm. An id that is neither in the table nor inherited has
  the base value 100.
\<close>

lemma expected_inherited_name:
  "baseValueOf demoCampaign ''toString'' = NaN
   \<and> generateExpectedValue demoCampaign ''constructor'' (1 / 2) = NaN
   \<and> baseValueOf demoCampaign ''unknown_metric'' = Finite 100
   \<and> map_sum id (\<lambda>(s, a). (s_state s, s_expectedValue s, s_anomalyScore s, a))
         (fst (evaluateMonitor (demoMonitor ''m3'' ''toString'' SIMPLE None) demoCampaign
                 (demoEnv ''2024-05-01T10:00:00.000Z'' [] ''a1'') emptyStore))
       = Inr (OK, NaN, NaN, None)"
  by code_simp

section \<open>Lists: find, findIndex and the stored arrays\<close>

lemma findIndex_ge: "- 1 \<le> findIndex P xs"
  by (induction xs) (auto simp: Let_def)

lemma findIndex_neg_iff: "findIndex P xs < 0 \<longleftrightarrow> (\<forall>x\<in>set xs. \<not> P x)"
  using findIndex_ge [of P] by (induction xs) (auto simp: Let_def)

lemma findIndex_upsert:
  "(if findIndex P xs \<ge> 0 then xs[nat (findIndex P xs) := x] else xs @ [x]) = upsert P x xs"
proof (induction xs)
  case Nil
  show ?case by simp
next
  case (Cons y ys)
  show ?case
  proof (cases "P y")
    case True
    then show ?thesis by simp
  next
    case False
    have "- 1 \<le> findIndex P ys" by (rule findIndex_ge)
    with False Cons show ?thesis
      by (cases "findIndex P ys < 0") (auto simp: Let_def nat_add_distrib split: if_splits)
  qed
qed

lemma find_upsert:
  "find (\<lambda>a. f a = k) (upsert (\<lambda>a. f a = f x) x xs) =
     (if k = f x then Some x else find (\<lambda>a. f a = k) xs)"
  by (induction xs) auto

lemma find_None_upsert: "find P xs = None \<Longrightarrow> upsert P x xs = xs @ [x]"
  by (induction xs) (auto split: if_splits)

lemma map_replace_absent: "\<forall>a\<in>set zs. f a \<noteq> k \<Longrightarrow> map (\<lambda>a. if f a = k then x else a) zs = zs"
  by (induction zs) auto

lemma upsert_present:
  "distinct (map f xs) \<Longrightarrow> k \<in> f ` set xs \<Longrightarrow>
   upsert (\<lambda>a. f a = k) x xs = map (\<lambda>a. if f a = k then x else a) xs"
proof (induction xs)
  case Nil
  then show ?case by simp
next
  case (Cons z zs)
  show ?case
  proof (cases "f z = k")
    case True
    from Cons.prems(1) True have "k \<notin> f ` set zs" by simp
    then have "\<forall>a\<in>set zs. f a \<noteq> k" by blast
    then have "map (\<lambda>a. if f a = k then x else a) zs = zs" by (rule map_replace_absent)
    then show ?thesis using True by simp
  next
    case False
    then show ?thesis using Cons by auto
  qed
qed

lemma map_key_upsert:
  "map f (upsert (\<lambda>a. f a = f x) x xs) = (if f x \<in> f ` set xs then map f xs else map f xs @ [f x])"
  by (induction xs) auto

lemma distinct_upsert:
  "distinct (map f xs) \<Longrightarrow> distinct (map f (upsert (\<lambda>a. f a = f x) x xs))"
  by (simp add: map_key_upsert)

lemma filter_upsert_le:
  "length (filter Q (upsert P x xs)) \<le> length (filter Q xs) + (if Q x then 1 else 0)"
  by (induction xs) auto

lemma saveAlarm_alarms: "alarms (saveAlarm alarm st) = upsert (\<lambda>a. a_id a = a_id alarm) alarm (alarms st)"
  using findIndex_upsert [of "\<lambda>a. a_id a = a_id alarm" "alarms st" alarm]
  by (simp add: saveAlarm_def Let_def)

lemma saveAlarm_monitorStates [simp]: "monitorStates (saveAlarm alarm st) = monitorStates st"
  by (simp add: saveAlarm_def Let_def)

lemma find_distinct_key:
  "distinct (map f xs) \<Longrightarrow> a \<in> set xs \<Longrightarrow> find (\<lambda>b. f b = f a) xs = Some a"
  by (induction xs) (auto simp: image_iff)

lemma find_key_unique:
  assumes "distinct (map f xs)" and "find (\<lambda>b. f b = k) xs = Some a" and "b \<in> set xs" and "f b = k"
  shows "b = a"
proof -
  from assms(2) have "a \<in> set xs" and "f a = k"
    by (auto simp: find_Some_iff)
  with assms(1,3,4) show ?thesis
    by (metis distinct_map inj_on_eq_iff)
qed

lemma set_upsert: "set (upsert P x xs) \<subseteq> insert x (set xs)"
  by (induction xs) auto

lemma filter_map_le:
  "(\<And>a. a \<in> set xs \<Longrightarrow> Q (g a) \<Longrightarrow> Q a) \<Longrightarrow> length (filter Q (map g xs)) \<le> length (filter Q xs)"
  by (induction xs) auto

subsection \<open>The store operations\<close>

lemma saveMonitorState_eq:
  "saveMonitorState state now st =
     (state\<lparr>s_updatedAt := now\<rparr>,
      st\<lparr>monitorStates := upsert (\<lambda>s. s_monitorId s = s_monitorId state) (state\<lparr>s_updatedAt := now\<rparr>)
                               (monitorStates st)\<rparr>)"
  using findIndex_upsert [of "\<lambda>s. s_monitorId s = s_monitorId state" "monitorStates st" "state\<lparr>s_updatedAt := now\<rparr>"]
  by (simp add: saveMonitorState_def Let_def)

lemma getMonitorState_upsert:
  "getMonitorState k (st\<lparr>monitorStates := upsert (\<lambda>s. s_monitorId s = s_monitorId x) x (monitorStates st)\<rparr>) =
     (if k = s_monitorId x then Some x else getMonitorState k st)"
  using find_upsert [of s_monitorId k x "monitorStates st"]
  by (simp add: getMonitorState_def)

lemma getAlarm_saveAlarm:
  "getAlarm k (saveAlarm alarm st) = (if k = a_id alarm then Some alarm else getAlarm k st)"
  using find_upsert [of a_id k alarm "alarms st"]
  by (simp add: getAlarm_def saveAlarm_alarms)

lemma getMonitorState_saveAlarm [simp]: "getMonitorState k (saveAlarm alarm st) = getMonitorState k st"
  by (simp add: getMonitorState_def)

lemma resolveAlarm_eq:
  "resolveAlarm alarmId method now st =
     (case getAlarm alarmId st of
        None \<Rightarrow> st
      | Some a \<Rightarrow> if a_state a = ACTIVE then saveAlarm (resolved method now a) st else st)"
  by (simp add: resolveAlarm_def getAlarm_def resolved_def split: option.split)

lemma dismissAlarm_eq:
  "dismissAlarm alarmId now st =
     (case getAlarm alarmId st of
        None \<Rightarrow> st
      | Some a \<Rightarrow> if a_state a = ACTIVE then saveAlarm (dismissed now a) st else st)"
  by (simp add: dismissAlarm_def getAlarm_def dismissed_def split: option.split)

lemma getAlarm_id: "getAlarm alarmId st = Some a \<Longrightarrow> a_id a = alarmId \<and> a \<in> set (alarms st)"
  by (auto simp: getAlarm_def find_Some_iff)

lemma getAlarm_None: "getAlarm alarmId st = None \<longleftrightarrow> (\<forall>b\<in>set (alarms st). a_id b \<noteq> alarmId)"
  by (auto simp: getAlarm_def find_None_iff)

lemma resolved_simps [simp]:
  "a_id (resolved method now a) = a_id a" "a_state (resolved method now a) = RESOLVED"
  "a_monitorId (resolved method now a) = a_monitorId a"
  "a_resolvedAt (resolved method now a) = Some now"
  "a_resolutionMethod (resolved method now a) = Some method"
  by (simp_all add: resolved_def)

lemma dismissed_simps [simp]:
  "a_id (dismissed now a) = a_id a" "a_state (dismissed now a) = DISMISSED"
  "a_monitorId (dismissed now a) = a_monitorId a"
  "a_resolvedAt (dismissed now a) = Some now"
  "a_resolutionMethod (dismissed now a) = Some METHOD_DISMISSED"
  by (simp_all add: dismissed_def)

subsection \<open>evaluateMonitor\<close>

lemma computeNewState_monitorId [simp]:
  "s_monitorId (computeNewState monitor campaign env prev) = m_id monitor"
  by (simp add: computeNewState_def initialNewState_def Let_def split: prod.split)

lemma newStateOf_monitorId [simp]: "s_monitorId (newStateOf monitor campaign env st) = m_id monitor"
  by (simp add: newStateOf_def)

lemma buildAlarm_simps [simp]:
  "a_id (buildAlarm monitor campaign state env) = e_uuid env"
  "a_monitorId (buildAlarm monitor campaign state env) = m_id monitor"
  "a_state (buildAlarm monitor campaign state env) = ACTIVE"
  by (simp_all add: buildAlarm_def Let_def)

lemma evaluateMonitor_throw:
  "e_sourceError env = Some err \<Longrightarrow> evaluateMonitor monitor campaign env st = (Inl err, st)"
  by (simp add: evaluateMonitor_def)

lemma evaluateMonitor_eq:
  assumes "e_sourceError env = None"
  shows "evaluateMonitor monitor campaign env st =
     (let ns = newStateOf monitor campaign env st;
          st1 = st\<lparr>monitorStates := upsert (\<lambda>s. s_monitorId s = s_monitorId ns) ns (monitorStates st)\<rparr>
      in if s_state ns = IN_ALARM \<and> \<not> wasInAlarm (getMonitorState (m_id monitor) st)
         then (Inr (ns, Some (buildAlarm monitor campaign ns env)),
               saveAlarm (buildAlarm monitor campaign ns env) st1)
         else (Inr (ns, None), st1))"
  using assms
  by (simp add: evaluateMonitor_def saveMonitorState_eq createAlarmFromMonitor_def newStateOf_def Let_def)

lemma evaluateMonitor_Inl:
  "evaluateMonitor monitor campaign env st = (Inl err, st1) \<Longrightarrow> st1 = st \<and> e_sourceError env = Some err"
  by (cases "e_sourceError env")
     (auto simp: evaluateMonitor_throw evaluateMonitor_eq Let_def split: if_splits)

lemma evaluateMonitor_Inr:
  assumes "evaluateMonitor monitor campaign env st = (Inr (state, alarm), st1)"
  shows "e_sourceError env = None"
    and "state = newStateOf monitor campaign env st"
    and "alarm = (if s_state state = IN_ALARM \<and> \<not> wasInAlarm (getMonitorState (m_id monitor) st)
                  then Some (buildAlarm monitor campaign state env) else None)"
    and "getMonitorState k st1 = (if k = m_id monitor then Some state else getMonitorState k st)"
    and "alarms st1 = (case alarm of None \<Rightarrow> alarms st | Some a \<Rightarrow> upsert (\<lambda>b. a_id b = a_id a) a (alarms st))"
proof -
  show e: "e_sourceError env = None"
    using assms by (cases "e_sourceError env") (simp_all add: evaluateMonitor_throw)
  note eq = assms [unfolded evaluateMonitor_eq [OF e] Let_def]
  show s: "state = newStateOf monitor campaign env st"
    using eq by (simp split: if_splits)
  show "alarm = (if s_state state = IN_ALARM \<and> \<not> wasInAlarm (getMonitorState (m_id monitor) st)
                  then Some (buildAlarm monitor campaign state env) else None)"
    using eq by (auto split: if_splits)
  show "getMonitorState k st1 = (if k = m_id monitor then Some state else getMonitorState k st)"
    using eq getMonitorState_upsert [of k "newStateOf monitor campaign env st" st]
    by (auto split: if_splits)
  show "alarms st1 = (case alarm of None \<Rightarrow> alarms st | Some a \<Rightarrow> upsert (\<lambda>b. a_id b = a_id a) a (alarms st))"
    using eq by (auto simp: saveAlarm_alarms split: if_splits)
qed

subsection \<open>Resolution keeps the invariant\<close>

lemma activeCount_saveAlarm_le:
  "activeCount k (saveAlarm x st) \<le> activeCount k st + (if a_monitorId x = k \<and> a_state x = ACTIVE then 1 else 0)"
  using filter_upsert_le [of "\<lambda>a. a_monitorId a = k \<and> a_state a = ACTIVE" "\<lambda>a. a_id a = a_id x" x "alarms st"]
  by (simp add: activeCount_def activeAlarmsOf_def saveAlarm_alarms)

lemma distinct_saveAlarm:
  "distinct (map a_id (alarms st)) \<Longrightarrow> distinct (map a_id (alarms (saveAlarm x st)))"
  by (simp add: saveAlarm_alarms distinct_upsert)

lemma set_saveAlarm: "set (alarms (saveAlarm x st)) \<subseteq> insert x (set (alarms st))"
  by (simp add: saveAlarm_alarms set_upsert)

lemma storeInv_saveAlarm_inactive:
  assumes "storeInv st" and "a_state x \<noteq> ACTIVE"
  shows "storeInv (saveAlarm x st)"
proof -
  have "distinct (map a_id (alarms (saveAlarm x st)))"
    using assms(1) by (simp add: storeInv_def distinct_saveAlarm)
  moreover have "\<forall>a\<in>set (alarms (saveAlarm x st)). a_state a = ACTIVE \<longrightarrow>
                   wasInAlarm (getMonitorState (a_monitorId a) (saveAlarm x st))"
    using assms set_saveAlarm [of x st] by (auto simp: storeInv_def)
  moreover have "\<forall>k. activeCount k (saveAlarm x st) \<le> 1"
  proof
    fix k
    have "activeCount k (saveAlarm x st) \<le> activeCount k st"
      using activeCount_saveAlarm_le [of k x st] assms(2) by simp
    also have "\<dots> \<le> 1" using assms(1) by (simp add: storeInv_def)
    finally show "activeCount k (saveAlarm x st) \<le> 1" .
  qed
  ultimately show ?thesis by (simp add: storeInv_def)
qed

lemma storeInv_resolveAlarm: "storeInv st \<Longrightarrow> storeInv (resolveAlarm alarmId method now st)"
  by (simp add: resolveAlarm_eq storeInv_saveAlarm_inactive split: option.split)

lemma storeInv_dismissAlarm: "storeInv st \<Longrightarrow> storeInv (dismissAlarm alarmId now st)"
  by (simp add: dismissAlarm_eq storeInv_saveAlarm_inactive split: option.split)

lemma resolveAlarm_monitorStates [simp]:
  "monitorStates (resolveAlarm alarmId method now st) = monitorStates st"
  by (simp add: resolveAlarm_eq split: option.split)

lemma resolveAlarm_map:
  assumes "distinct (map a_id (alarms st))"
  shows "alarms (resolveAlarm i method now st) =
           map (\<lambda>a. if a_id a = i \<and> a_state a = ACTIVE then resolved method now a else a) (alarms st)"
proof (cases "getAlarm i st")
  case None
  then have "\<forall>b\<in>set (alarms st). a_id b \<noteq> i" by (simp add: getAlarm_None)
  then have "map (\<lambda>a. if a_id a = i \<and> a_state a = ACTIVE then resolved method now a else a) (alarms st) = alarms st"
    by (intro map_idI) auto
  with None show ?thesis by (simp add: resolveAlarm_eq)
next
  case (Some a)
  then have ia: "a_id a = i" "a \<in> set (alarms st)" using getAlarm_id by blast+
  have uniq: "\<And>b. b \<in> set (alarms st) \<Longrightarrow> a_id b = i \<Longrightarrow> b = a"
    using find_key_unique [OF assms, of i a] Some by (simp add: getAlarm_def)
  show ?thesis
  proof (cases "a_state a = ACTIVE")
    case True
    have "alarms (resolveAlarm i method now st) =
            upsert (\<lambda>b. a_id b = i) (resolved method now a) (alarms st)"
      using Some True ia by (simp add: resolveAlarm_eq saveAlarm_alarms)
    also have "\<dots> = map (\<lambda>b. if a_id b = i then resolved method now a else b) (alarms st)"
      using upsert_present [OF assms, of i "resolved method now a"] ia by blast
    also have "\<dots> = map (\<lambda>a. if a_id a = i \<and> a_state a = ACTIVE then resolved method now a else a) (alarms st)"
      using uniq True by (intro map_cong) auto
    finally show ?thesis .
  next
    case False
    have "map (\<lambda>a. if a_id a = i \<and> a_state a = ACTIVE then resolved method now a else a) (alarms st) = alarms st"
      using uniq False by (intro map_idI) auto
    with Some False show ?thesis by (simp add: resolveAlarm_eq)
  qed
qed

lemma resolveAlarm_ids:
  assumes "distinct (map a_id (alarms st))"
  shows "map a_id (alarms (resolveAlarm i method now st)) = map a_id (alarms st)"
proof -
  have "a_id \<circ> (\<lambda>a. if a_id a = i \<and> a_state a = ACTIVE then resolved method now a else a) = a_id"
    by (auto simp: fun_eq_iff)
  then show ?thesis by (simp add: resolveAlarm_map [OF assms])
qed

lemma foldl_resolve_monitorStates [simp]:
  "monitorStates (foldl (\<lambda>s alarm. resolveAlarm (a_id alarm) method (clock (a_id alarm)) s) st acts) = monitorStates st"
  by (induction acts arbitrary: st) simp_all

lemma foldl_resolve_map:
  "distinct (map a_id (alarms st)) \<Longrightarrow>
   alarms (foldl (\<lambda>s alarm. resolveAlarm (a_id alarm) method (clock (a_id alarm)) s) st acts) =
     map (\<lambda>a. if a_id a \<in> a_id ` set acts \<and> a_state a = ACTIVE
               then resolved method (clock (a_id a)) a else a) (alarms st)"
proof (induction acts arbitrary: st)
  case Nil
  then show ?case by (simp add: map_idI)
next
  case (Cons b bs)
  let ?st' = "resolveAlarm (a_id b) method (clock (a_id b)) st"
  let ?g = "\<lambda>a. if a_id a = a_id b \<and> a_state a = ACTIVE then resolved method (clock (a_id b)) a else a"
  let ?G = "\<lambda>a. if a_id a \<in> a_id ` set bs \<and> a_state a = ACTIVE
               then resolved method (clock (a_id a)) a else a"
  let ?G' = "\<lambda>a. if a_id a \<in> a_id ` set (b # bs) \<and> a_state a = ACTIVE
               then resolved method (clock (a_id a)) a else a"
  have d: "distinct (map a_id (alarms ?st'))"
    using Cons.prems by (simp add: resolveAlarm_ids)
  have pt: "\<And>a. ?G (?g a) = ?G' a"
    by auto
  have "alarms (foldl (\<lambda>s alarm. resolveAlarm (a_id alarm) method (clock (a_id alarm)) s) st (b # bs)) =
          alarms (foldl (\<lambda>s alarm. resolveAlarm (a_id alarm) method (clock (a_id alarm)) s) ?st' bs)"
    by simp
  also have "\<dots> = map ?G (alarms ?st')" by (rule Cons.IH [OF d])
  also have "\<dots> = map ?G (map ?g (alarms st))"
    by (simp only: resolveAlarm_map [OF Cons.prems])
  also have "\<dots> = map (\<lambda>a. ?G (?g a)) (alarms st)" by (simp only: map_map o_def)
  also have "\<dots> = map ?G' (alarms st)" by (simp only: pt)
  finally show ?case .
qed

lemma autoResolve_monitorStates [simp]:
  "monitorStates (autoResolveAlarms monitor state clock st) = monitorStates st"
  by (simp add: autoResolveAlarms_def Let_def)

lemma autoResolve_alarms:
  assumes "distinct (map a_id (alarms st))" and "s_state state = OK"
  shows "alarms (autoResolveAlarms monitor state clock st) =
           map (\<lambda>a. if a_monitorId a = m_id monitor \<and> a_state a = ACTIVE
                     then resolved AUTO_RESOLVED (clock (a_id a)) a else a) (alarms st)"
proof -
  define acts where "acts = filter (\<lambda>a. a_monitorId a = m_id monitor \<and> a_state a = ACTIVE) (alarms st)"
  have inj: "inj_on a_id (set (alarms st))" using assms(1) by (simp add: distinct_map)
  have sub: "\<And>b. b \<in> set acts \<Longrightarrow> b \<in> set (alarms st) \<and> a_monitorId b = m_id monitor"
    by (simp add: acts_def)
  have mem: "\<And>a. a \<in> set (alarms st) \<Longrightarrow> a_monitorId a = m_id monitor \<Longrightarrow> a_state a = ACTIVE
               \<Longrightarrow> a \<in> set acts"
    by (simp add: acts_def)
  have unf: "autoResolveAlarms monitor state clock st =
          foldl (\<lambda>s alarm. resolveAlarm (a_id alarm) AUTO_RESOLVED (clock (a_id alarm)) s) st acts"
    using assms(2) by (simp add: autoResolveAlarms_def acts_def)
  have "alarms (autoResolveAlarms monitor state clock st) =
          map (\<lambda>a. if a_id a \<in> a_id ` set acts \<and> a_state a = ACTIVE
                    then resolved AUTO_RESOLVED (clock (a_id a)) a else a) (alarms st)"
    unfolding unf by (rule foldl_resolve_map [OF assms(1)])
  also have "\<dots> = map (\<lambda>a. if a_monitorId a = m_id monitor \<and> a_state a = ACTIVE
                     then resolved AUTO_RESOLVED (clock (a_id a)) a else a) (alarms st)"
  proof (rule map_cong [OF refl])
    fix a assume a: "a \<in> set (alarms st)"
    show "(if a_id a \<in> a_id ` set acts \<and> a_state a = ACTIVE
            then resolved AUTO_RESOLVED (clock (a_id a)) a else a) =
          (if a_monitorId a = m_id monitor \<and> a_state a = ACTIVE
            then resolved AUTO_RESOLVED (clock (a_id a)) a else a)"
    proof (cases "a_state a = ACTIVE")
      case False
      then show ?thesis by simp
    next
      case True
      have "a_id a \<in> a_id ` set acts \<longleftrightarrow> a_monitorId a = m_id monitor"
      proof
        assume "a_id a \<in> a_id ` set acts"
        then obtain b where b: "b \<in> set acts" "a_id b = a_id a" by (metis imageE)
        from sub [OF b(1)] have b': "b \<in> set (alarms st)" "a_monitorId b = m_id monitor" by blast+
        from inj_onD [OF inj b(2) b'(1) a] have "b = a" .
        with b' show "a_monitorId a = m_id monitor" by blast
      next
        assume "a_monitorId a = m_id monitor"
        from mem [OF a this True] show "a_id a \<in> a_id ` set acts" by (rule imageI)
      qed
      then show ?thesis by simp
    qed
  qed
  finally show ?thesis .
qed

lemma autoResolve_not_OK: "s_state state \<noteq> OK \<Longrightarrow> autoResolveAlarms monitor state clock st = st"
  by (simp add: autoResolveAlarms_def)

subsection \<open>A batch step keeps the invariant\<close>

lemma wasInAlarm_Some [simp]: "wasInAlarm (Some p) \<longleftrightarrow> s_state p = IN_ALARM"
  by (simp add: wasInAlarm_def)

lemma wasInAlarm_None [simp]: "\<not> wasInAlarm None"
  by (simp add: wasInAlarm_def)

lemma activeCount_alt:
  "activeCount k st = length (filter (\<lambda>a. a_monitorId a = k \<and> a_state a = ACTIVE) (alarms st))"
  by (simp add: activeCount_def activeAlarmsOf_def)

lemma getMonitorState_autoResolve [simp]:
  "getMonitorState k (autoResolveAlarms monitor state clock st) = getMonitorState k st"
  by (simp add: getMonitorState_def)

lemma activeCount_zero:
  assumes "storeInv st" and "\<not> wasInAlarm (getMonitorState k st)"
  shows "activeCount k st = 0"
proof -
  have "\<forall>a\<in>set (alarms st). \<not> (a_monitorId a = k \<and> a_state a = ACTIVE)"
    using assms by (auto simp: storeInv_def)
  then have "filter (\<lambda>a. a_monitorId a = k \<and> a_state a = ACTIVE) (alarms st) = []"
    by (simp add: filter_empty_conv)
  then show ?thesis by (simp add: activeCount_alt)
qed

lemma storeInvI:
  assumes "distinct (map a_id (alarms st))"
    and "\<And>a. a \<in> set (alarms st) \<Longrightarrow> a_state a = ACTIVE \<Longrightarrow> wasInAlarm (getMonitorState (a_monitorId a) st)"
    and "\<And>k. activeCount k st \<le> 1"
  shows "storeInv st"
  using assms by (simp add: storeInv_def)

lemma storeInvD:
  assumes "storeInv st"
  shows "distinct (map a_id (alarms st))"
    and "\<And>a. a \<in> set (alarms st) \<Longrightarrow> a_state a = ACTIVE \<Longrightarrow> wasInAlarm (getMonitorState (a_monitorId a) st)"
    and "\<And>k. activeCount k st \<le> 1"
  using assms by (simp_all add: storeInv_def)

lemma autoResolve_step_id: 
  "a_id (if a_monitorId a = k \<and> a_state a = ACTIVE then resolved method now a else a) = a_id a"
  by simp

lemma step_storeInv_OK:
  assumes inv: "storeInv st"
    and ev: "evaluateMonitor monitor campaign env st = (Inr (state, alarm), st1)"
    and ok: "s_state state = OK"
  shows "storeInv (autoResolveAlarms monitor state clock st1)"
proof (rule storeInvI)
  note r = evaluateMonitor_Inr [OF ev]
  let ?g = "\<lambda>a. if a_monitorId a = m_id monitor \<and> a_state a = ACTIVE
                 then resolved AUTO_RESOLVED (clock (a_id a)) a else a"
  let ?st2 = "autoResolveAlarms monitor state clock st1"
  have d: "distinct (map a_id (alarms st))" by (rule storeInvD(1) [OF inv])
  have al: "alarm = None" using r(3) ok by simp
  have a1: "alarms st1 = alarms st" using r(5) al by simp
  have d1: "distinct (map a_id (alarms st1))" using d by (simp only: a1)
  have a2: "alarms ?st2 = map ?g (alarms st)"
    using autoResolve_alarms [OF d1 ok, of monitor clock] by (simp only: a1)
  have "map a_id (map ?g (alarms st)) = map a_id (alarms st)"
    by (induction "alarms st") simp_all
  then show "distinct (map a_id (alarms ?st2))"
    using d by (simp only: a2)
  show "wasInAlarm (getMonitorState (a_monitorId a) ?st2)"
    if a: "a \<in> set (alarms ?st2)" "a_state a = ACTIVE" for a
  proof -
    from a(1) have "a \<in> ?g ` set (alarms st)" by (simp only: a2 set_map)
    then obtain b where b: "a = ?g b" "b \<in> set (alarms st)" by (rule imageE)
    have nb: "\<not> (a_monitorId b = m_id monitor \<and> a_state b = ACTIVE)"
    proof
      assume "a_monitorId b = m_id monitor \<and> a_state b = ACTIVE"
      then have "a = resolved AUTO_RESOLVED (clock (a_id b)) b" using b(1) by simp
      then have "a_state a = RESOLVED" by simp
      with a(2) show False by simp
    qed
    then have ab: "a = b" using b(1) by (auto split: if_splits)
    with a(2) nb have nm: "a_monitorId a \<noteq> m_id monitor" by simp
    have "wasInAlarm (getMonitorState (a_monitorId a) st)"
      using storeInvD(2) [OF inv, of a] b(2) a(2) ab by simp
    then have "wasInAlarm (getMonitorState (a_monitorId a) st1)"
      using nm by (simp add: r(4))
    then show ?thesis by simp
  qed
  show "activeCount k ?st2 \<le> 1" for k
  proof -
    have "length (filter (\<lambda>a. a_monitorId a = k \<and> a_state a = ACTIVE) (map ?g (alarms st)))
            \<le> length (filter (\<lambda>a. a_monitorId a = k \<and> a_state a = ACTIVE) (alarms st))"
    proof (rule filter_map_le)
      fix a assume "a_monitorId (?g a) = k \<and> a_state (?g a) = ACTIVE"
      then show "a_monitorId a = k \<and> a_state a = ACTIVE"
        by (cases "a_monitorId a = m_id monitor \<and> a_state a = ACTIVE") simp_all
    qed
    then have "activeCount k ?st2 \<le> activeCount k st" by (simp only: activeCount_alt a2)
    also have "\<dots> \<le> 1" by (rule storeInvD(3) [OF inv])
    finally show ?thesis .
  qed
qed

lemma step_storeInv_IN_ALARM:
  assumes inv: "storeInv st"
    and ev: "evaluateMonitor monitor campaign env st = (Inr (state, alarm), st1)"
    and ia: "s_state state = IN_ALARM"
  shows "storeInv st1"
proof -
  note r = evaluateMonitor_Inr [OF ev]
  have d: "distinct (map a_id (alarms st))" using inv by (simp add: storeInv_def)
  have old: "\<And>a. a \<in> set (alarms st) \<Longrightarrow> a_state a = ACTIVE \<Longrightarrow>
                wasInAlarm (getMonitorState (a_monitorId a) st1)"
  proof -
    fix a assume a: "a \<in> set (alarms st)" "a_state a = ACTIVE"
    then have "wasInAlarm (getMonitorState (a_monitorId a) st)" using inv by (simp add: storeInv_def)
    then show "wasInAlarm (getMonitorState (a_monitorId a) st1)" using ia by (simp add: r(4))
  qed
  show ?thesis
  proof (cases "wasInAlarm (getMonitorState (m_id monitor) st)")
    case True
    then have "alarm = None" using r(3) by simp
    then have a1: "alarms st1 = alarms st" using r(5) by simp
    have "\<forall>k. activeCount k st1 \<le> 1" using inv by (simp add: storeInv_def activeCount_alt a1)
    then show ?thesis unfolding storeInv_def using d old a1 by simp
  next
    case False
    define x where "x = buildAlarm monitor campaign state env"
    have al: "alarm = Some x" using r(3) ia False by (simp add: x_def)
    have a1: "alarms st1 = upsert (\<lambda>b. a_id b = a_id x) x (alarms st)" using r(5) al by simp
    have xm: "a_monitorId x = m_id monitor" "a_state x = ACTIVE" by (simp_all add: x_def)
    have D: "distinct (map a_id (alarms st1))" using d by (simp add: a1 distinct_upsert)
    have A: "\<forall>a\<in>set (alarms st1). a_state a = ACTIVE \<longrightarrow> wasInAlarm (getMonitorState (a_monitorId a) st1)"
    proof (intro ballI impI)
      fix a assume a: "a \<in> set (alarms st1)" "a_state a = ACTIVE"
      from a(1) have "a = x \<or> a \<in> set (alarms st)"
        using set_upsert [of "\<lambda>b. a_id b = a_id x" x "alarms st"] unfolding a1 by blast
      then show "wasInAlarm (getMonitorState (a_monitorId a) st1)"
      proof
        assume "a = x"
        then show ?thesis using xm ia by (simp add: r(4))
      next
        assume "a \<in> set (alarms st)"
        then show ?thesis using old a(2) by blast
      qed
    qed
    have C: "\<forall>k. activeCount k st1 \<le> 1"
    proof
      fix k
      let ?Q = "\<lambda>a. a_monitorId a = k \<and> a_state a = ACTIVE"
      have le: "activeCount k st1 \<le> activeCount k st + (if ?Q x then 1 else 0)"
        using filter_upsert_le [of ?Q "\<lambda>b. a_id b = a_id x" x "alarms st"]
        by (simp add: activeCount_alt a1)
      show "activeCount k st1 \<le> 1"
      proof (cases "k = m_id monitor")
        case True
        then have "activeCount k st = 0" using activeCount_zero [OF inv] False by simp
        then show ?thesis using le by (simp split: if_splits)
      next
        case False
        then have "\<not> ?Q x" using xm by simp
        then have "activeCount k st1 \<le> activeCount k st" using le by (auto split: if_splits)
        also have "\<dots> \<le> 1" using inv by (simp add: storeInv_def)
        finally show ?thesis .
      qed
    qed
    show ?thesis unfolding storeInv_def using D A C by blast
  qed
qed

lemma step_storeInv:
  assumes "storeInv st" and "evaluateMonitor monitor campaign env st = (Inr (state, alarm), st1)"
  shows "storeInv (autoResolveAlarms monitor state clock st1)"
proof (cases "s_state state")
  case OK
  then show ?thesis using step_storeInv_OK [OF assms] by simp
next
  case IN_ALARM
  then show ?thesis using step_storeInv_IN_ALARM [OF assms] by (simp add: autoResolve_not_OK)
qed

lemma evaluateLoop_storeInv:
  "storeInv st \<Longrightarrow> storeInv (snd (evaluateLoop campaign ms states newAlarms st))"
proof (induction ms arbitrary: states newAlarms st)
  case Nil
  then show ?case by simp
next
  case (Cons p rest)
  obtain monitor env where p: "p = (monitor, env)" by (cases p)
  show ?case
  proof (cases "m_enabled monitor")
    case False
    then show ?thesis using Cons p by simp
  next
    case True
    obtain res st1 where ev: "evaluateMonitor monitor campaign env st = (res, st1)"
      by (cases "evaluateMonitor monitor campaign env st")
    show ?thesis
    proof (cases res)
      case (Inl err)
      then have "st1 = st" using evaluateMonitor_Inl ev by blast
      then show ?thesis using Cons.prems p True ev Inl by simp
    next
      case (Inr sa)
      obtain state alarm where sa: "sa = (state, alarm)" by (cases sa)
      have "storeInv (autoResolveAlarms monitor state (e_resolvedAt env) st1)"
        using step_storeInv [OF Cons.prems] ev Inr sa by simp
      from Cons.IH [OF this] show ?thesis using p True ev Inr sa by simp
    qed
  qed
qed

lemma storeInv_emptyStore: "storeInv emptyStore"
  by (simp add: storeInv_def emptyStore_def activeCount_alt getMonitorState_def)

lemma applyOp_storeInv: "storeInv st \<Longrightarrow> \<not> isBareEvaluate op \<Longrightarrow> storeInv (applyOp st op)"
  by (cases op)
     (simp_all add: evaluateAllMonitors_def evaluateLoop_storeInv storeInv_resolveAlarm storeInv_dismissAlarm)

lemma runOps_storeInv:
  "storeInv st \<Longrightarrow> \<forall>op\<in>set ops. \<not> isBareEvaluate op \<Longrightarrow> storeInv (runOps ops st)"
  unfolding runOps_def
  by (induction ops arbitrary: st) (simp_all add: applyOp_storeInv)

subsection \<open>The loop of evaluateAllMonitors\<close>

lemma evaluateLoop_disabled:
  "\<not> m_enabled monitor \<Longrightarrow>
   evaluateLoop campaign ((monitor, env) # rest) states newAlarms st =
     evaluateLoop campaign rest states newAlarms st"
  by simp

lemma evaluateLoop_throw:
  "m_enabled monitor \<Longrightarrow> evaluateMonitor monitor campaign env st = (Inl err, st1) \<Longrightarrow>
   evaluateLoop campaign ((monitor, env) # rest) states newAlarms st = (Inl err, st1)"
  by simp

lemma evaluateLoop_step:
  "m_enabled monitor \<Longrightarrow> evaluateMonitor monitor campaign env st = (Inr (state, alarm), st1) \<Longrightarrow>
   evaluateLoop campaign ((monitor, env) # rest) states newAlarms st =
     evaluateLoop campaign rest (states @ [state])
       (case alarm of None \<Rightarrow> newAlarms | Some a \<Rightarrow> newAlarms @ [a])
       (autoResolveAlarms monitor state (e_resolvedAt env) st1)"
  by simp

lemma evaluateLoop_append:
  "evaluateLoop campaign pre states newAlarms st = (Inr (states1, newAlarms1), st1) \<Longrightarrow>
   evaluateLoop campaign (pre @ rest) states newAlarms st =
     evaluateLoop campaign rest states1 newAlarms1 st1"
proof (induction pre arbitrary: states newAlarms st)
  case Nil
  then show ?case by simp
next
  case (Cons p pre)
  obtain monitor env where p: "p = (monitor, env)" by (cases p)
  show ?case
  proof (cases "m_enabled monitor")
    case False
    then show ?thesis using Cons p by simp
  next
    case True
    obtain res st2 where ev: "evaluateMonitor monitor campaign env st = (res, st2)"
      by (cases "evaluateMonitor monitor campaign env st")
    show ?thesis
    proof (cases res)
      case (Inl err)
      then have "evaluateLoop campaign (p # pre) states newAlarms st = (Inl err, st2)"
        using p True ev by simp
      with Cons.prems show ?thesis by simp
    next
      case (Inr sa)
      obtain state alarm where sa: "sa = (state, alarm)" by (cases sa)
      have ev': "evaluateMonitor monitor campaign env st = (Inr (state, alarm), st2)"
        using ev Inr sa by simp
      have "evaluateLoop campaign pre (states @ [state])
              (case alarm of None \<Rightarrow> newAlarms | Some a \<Rightarrow> newAlarms @ [a])
              (autoResolveAlarms monitor state (e_resolvedAt env) st2) = (Inr (states1, newAlarms1), st1)"
        using Cons.prems unfolding p evaluateLoop_step [OF True ev'] .
      from Cons.IH [OF this] show ?thesis
        unfolding p append_Cons evaluateLoop_step [OF True ev'] .
    qed
  qed
qed

lemma activeCount_resolveAlarm_le: "activeCount k (resolveAlarm alarmId method now st) \<le> activeCount k st"
proof (cases "getAlarm alarmId st")
  case None
  then show ?thesis by (simp add: resolveAlarm_eq)
next
  case (Some a)
  show ?thesis
  proof (cases "a_state a = ACTIVE")
    case True
    then have "resolveAlarm alarmId method now st = saveAlarm (resolved method now a) st"
      using Some by (simp add: resolveAlarm_eq)
    then show ?thesis using activeCount_saveAlarm_le [of k "resolved method now a" st] by simp
  next
    case False
    then show ?thesis using Some by (simp add: resolveAlarm_eq)
  qed
qed

lemma activeCount_foldl_resolve_le:
  "activeCount k (foldl (\<lambda>s alarm. resolveAlarm (a_id alarm) method (clock (a_id alarm)) s) st acts)
     \<le> activeCount k st"
proof (induction acts arbitrary: st)
  case Nil
  show ?case by simp
next
  case (Cons b bs)
  have "activeCount k (foldl (\<lambda>s alarm. resolveAlarm (a_id alarm) method (clock (a_id alarm)) s) st (b # bs))
          \<le> activeCount k (resolveAlarm (a_id b) method (clock (a_id b)) st)"
    using Cons [of "resolveAlarm (a_id b) method (clock (a_id b)) st"] by simp
  also have "\<dots> \<le> activeCount k st" by (rule activeCount_resolveAlarm_le)
  finally show ?case .
qed

lemma activeCount_autoResolve_le:
  "activeCount k (autoResolveAlarms monitor state clock st) \<le> activeCount k st"
  by (simp add: autoResolveAlarms_def activeCount_foldl_resolve_le)

lemma activeCount_evaluateMonitor_other:
  assumes "evaluateMonitor monitor campaign env st = (Inr (state, alarm), st1)" and "m_id monitor \<noteq> k"
  shows "activeCount k st1 \<le> activeCount k st"
proof (cases alarm)
  case None
  then show ?thesis using evaluateMonitor_Inr(5) [OF assms(1)] by (simp add: activeCount_alt)
next
  case (Some x)
  have "x = buildAlarm monitor campaign state env"
    using evaluateMonitor_Inr(3) [OF assms(1)] Some by (simp split: if_splits)
  then have nq: "\<not> (a_monitorId x = k \<and> a_state x = ACTIVE)" using assms(2) by simp
  have "alarms st1 = upsert (\<lambda>b. a_id b = a_id x) x (alarms st)"
    using evaluateMonitor_Inr(5) [OF assms(1)] Some by simp
  then show ?thesis
    using filter_upsert_le [of "\<lambda>a. a_monitorId a = k \<and> a_state a = ACTIVE" "\<lambda>b. a_id b = a_id x" x "alarms st"] nq
    by (simp add: activeCount_alt)
qed

lemma evaluateLoop_no_active:
  "activeCount k st = 0 \<Longrightarrow> k \<notin> set (map (m_id \<circ> fst) ms) \<Longrightarrow>
   activeCount k (snd (evaluateLoop campaign ms states newAlarms st)) = 0"
proof (induction ms arbitrary: states newAlarms st)
  case Nil
  then show ?case by simp
next
  case (Cons p rest)
  obtain monitor env where p: "p = (monitor, env)" by (cases p)
  have nk: "m_id monitor \<noteq> k" and rest: "k \<notin> set (map (m_id \<circ> fst) rest)"
    using Cons.prems(2) p by auto
  show ?case
  proof (cases "m_enabled monitor")
    case False
    then show ?thesis using Cons.IH [OF Cons.prems(1) rest] p by simp
  next
    case True
    obtain res st1 where ev: "evaluateMonitor monitor campaign env st = (res, st1)"
      by (cases "evaluateMonitor monitor campaign env st")
    show ?thesis
    proof (cases res)
      case (Inl err)
      then have "st1 = st" using evaluateMonitor_Inl ev by blast
      then show ?thesis using Cons.prems(1) p True ev Inl by simp
    next
      case (Inr sa)
      obtain state alarm where sa: "sa = (state, alarm)" by (cases sa)
      have ev': "evaluateMonitor monitor campaign env st = (Inr (state, alarm), st1)"
        using ev Inr sa by simp
      have "activeCount k (autoResolveAlarms monitor state (e_resolvedAt env) st1) \<le> activeCount k st1"
        by (rule activeCount_autoResolve_le)
      also have "\<dots> \<le> activeCount k st" by (rule activeCount_evaluateMonitor_other [OF ev' nk])
      finally have z: "activeCount k (autoResolveAlarms monitor state (e_resolvedAt env) st1) = 0"
        using Cons.prems(1) by simp
      from Cons.IH [OF z rest] show ?thesis
        unfolding p evaluateLoop_step [OF True ev'] .
    qed
  qed
qed

lemma evaluateLoop_other_state:
  "k \<notin> set (map (m_id \<circ> fst) ms) \<Longrightarrow>
   getMonitorState k (snd (evaluateLoop campaign ms states newAlarms st)) = getMonitorState k st"
proof (induction ms arbitrary: states newAlarms st)
  case Nil
  then show ?case by simp
next
  case (Cons p rest)
  obtain monitor env where p: "p = (monitor, env)" by (cases p)
  have nk: "m_id monitor \<noteq> k" and rest: "k \<notin> set (map (m_id \<circ> fst) rest)"
    using Cons.prems p by auto
  show ?case
  proof (cases "m_enabled monitor")
    case False
    then show ?thesis using Cons.IH [OF rest] p by simp
  next
    case True
    obtain res st1 where ev: "evaluateMonitor monitor campaign env st = (res, st1)"
      by (cases "evaluateMonitor monitor campaign env st")
    show ?thesis
    proof (cases res)
      case (Inl err)
      then have "st1 = st" using evaluateMonitor_Inl ev by blast
      then show ?thesis using p True ev Inl by simp
    next
      case (Inr sa)
      obtain state alarm where sa: "sa = (state, alarm)" by (cases sa)
      have ev': "evaluateMonitor monitor campaign env st = (Inr (state, alarm), st1)"
        using ev Inr sa by simp
      have "getMonitorState k (autoResolveAlarms monitor state (e_resolvedAt env) st1) = getMonitorState k st"
        using evaluateMonitor_Inr(4) [OF ev', of k] nk by simp
      with Cons.IH [OF rest] show ?thesis
        unfolding p evaluateLoop_step [OF True ev'] by simp
    qed
  qed
qed

lemma distinct_autoResolve:
  assumes "distinct (map a_id (alarms st))"
  shows "distinct (map a_id (alarms (autoResolveAlarms monitor state clock st)))"
proof (cases "s_state state = OK")
  case True
  have "map a_id (map (\<lambda>a. if a_monitorId a = m_id monitor \<and> a_state a = ACTIVE
                     then resolved AUTO_RESOLVED (clock (a_id a)) a else a) (alarms st)) = map a_id (alarms st)"
    by (induction "alarms st") simp_all
  then show ?thesis using assms by (simp only: autoResolve_alarms [OF assms True])
next
  case False
  then show ?thesis using assms by (simp add: autoResolve_not_OK)
qed

lemma distinct_evaluateMonitor:
  assumes "distinct (map a_id (alarms st))" and "evaluateMonitor monitor campaign env st = (res, st1)"
  shows "distinct (map a_id (alarms st1))"
proof (cases res)
  case (Inl err)
  then have "st1 = st" using evaluateMonitor_Inl assms(2) by blast
  then show ?thesis using assms(1) by simp
next
  case (Inr sa)
  obtain state alarm where sa: "sa = (state, alarm)" by (cases sa)
  have ev': "evaluateMonitor monitor campaign env st = (Inr (state, alarm), st1)"
    using assms(2) Inr sa by simp
  show ?thesis
    using evaluateMonitor_Inr(5) [OF ev'] assms(1)
    by (cases alarm) (simp_all add: distinct_upsert)
qed

lemma evaluateLoop_distinct:
  "distinct (map a_id (alarms st)) \<Longrightarrow>
   distinct (map a_id (alarms (snd (evaluateLoop campaign ms states newAlarms st))))"
proof (induction ms arbitrary: states newAlarms st)
  case Nil
  then show ?case by simp
next
  case (Cons p rest)
  obtain monitor env where p: "p = (monitor, env)" by (cases p)
  show ?case
  proof (cases "m_enabled monitor")
    case False
    then show ?thesis using Cons p by simp
  next
    case True
    obtain res st1 where ev: "evaluateMonitor monitor campaign env st = (res, st1)"
      by (cases "evaluateMonitor monitor campaign env st")
    have d1: "distinct (map a_id (alarms st1))" by (rule distinct_evaluateMonitor [OF Cons.prems ev])
    show ?thesis
    proof (cases res)
      case (Inl err)
      then show ?thesis using d1 p True ev by simp
    next
      case (Inr sa)
      obtain state alarm where sa: "sa = (state, alarm)" by (cases sa)
      have ev': "evaluateMonitor monitor campaign env st = (Inr (state, alarm), st1)"
        using ev Inr sa by simp
      from Cons.IH [OF distinct_autoResolve [OF d1]] show ?thesis
        unfolding p evaluateLoop_step [OF True ev'] .
    qed
  qed
qed

section \<open>Dismissing and resolving\<close>

text \<open>
  Claim C10. When the alarm found under the given id is not ACTIVE, and when no alarm has
  the id, \<open>dismissAlarm\<close> and \<open>resolveAlarm\<close> leave the store as it is; with unique ids
  this is every alarm of the store that is not ACTIVE. Dismissing an active alarm stamps it
  once: a second dismissal changes nothing, so the alarm keeps its first \<open>resolvedAt\<close>.
\<close>

theorem dismiss_resolve_noop:
  "(getAlarm alarmId st = Some a \<and> a_state a \<noteq> ACTIVE \<longrightarrow>
      dismissAlarm alarmId now st = st \<and> resolveAlarm alarmId method now st = st)
   \<and> (alarmId \<notin> set (map a_id (alarms st)) \<longrightarrow>
      dismissAlarm alarmId now st = st \<and> resolveAlarm alarmId method now st = st)
   \<and> (distinct (map a_id (alarms st)) \<and> a \<in> set (alarms st) \<and> a_state a \<noteq> ACTIVE \<longrightarrow>
      dismissAlarm (a_id a) now st = st \<and> resolveAlarm (a_id a) method now st = st)
   \<and> (getAlarm alarmId st = Some a \<and> a_state a = ACTIVE \<longrightarrow>
      getAlarm alarmId (dismissAlarm alarmId now st) = Some (dismissed now a)
      \<and> dismissAlarm alarmId now' (dismissAlarm alarmId now st) = dismissAlarm alarmId now st)"
proof (intro conjI impI)
  assume h: "getAlarm alarmId st = Some a \<and> a_state a \<noteq> ACTIVE"
  then show "dismissAlarm alarmId now st = st" by (simp add: dismissAlarm_eq)
  from h show "resolveAlarm alarmId method now st = st" by (simp add: resolveAlarm_eq)
next
  assume "alarmId \<notin> set (map a_id (alarms st))"
  then have "\<forall>b\<in>set (alarms st). a_id b \<noteq> alarmId" by auto
  then have n: "getAlarm alarmId st = None" by (simp add: getAlarm_None)
  then show "dismissAlarm alarmId now st = st" by (simp add: dismissAlarm_eq)
  from n show "resolveAlarm alarmId method now st = st" by (simp add: resolveAlarm_eq)
next
  assume h: "distinct (map a_id (alarms st)) \<and> a \<in> set (alarms st) \<and> a_state a \<noteq> ACTIVE"
  then have g: "getAlarm (a_id a) st = Some a"
    using find_distinct_key [of a_id "alarms st" a] by (simp add: getAlarm_def)
  with h show "dismissAlarm (a_id a) now st = st" by (simp add: dismissAlarm_eq)
  from g h show "resolveAlarm (a_id a) method now st = st" by (simp add: resolveAlarm_eq)
next
  assume h: "getAlarm alarmId st = Some a \<and> a_state a = ACTIVE"
  then have i: "a_id a = alarmId" using getAlarm_id by blast
  from h have d: "dismissAlarm alarmId now st = saveAlarm (dismissed now a) st"
    by (simp add: dismissAlarm_eq)
  then show g: "getAlarm alarmId (dismissAlarm alarmId now st) = Some (dismissed now a)"
    using i by (simp add: getAlarm_saveAlarm)
  then show "dismissAlarm alarmId now' (dismissAlarm alarmId now st) = dismissAlarm alarmId now st"
    by (simp add: dismissAlarm_eq [of alarmId now'])
qed

theorem dismiss_resolve_noop_witness:
  "getAlarm ''a1'' demoStore = Some (demoAlarm ''a1'' ''m1'' DISMISSED (Some ''T1'') (Some METHOD_DISMISSED))
   \<and> a_state (demoAlarm ''a1'' ''m1'' DISMISSED (Some ''T1'') (Some METHOD_DISMISSED)) \<noteq> ACTIVE
   \<and> distinct (map a_id (alarms demoStore))
   \<and> demoAlarm ''a1'' ''m1'' DISMISSED (Some ''T1'') (Some METHOD_DISMISSED) \<in> set (alarms demoStore)
   \<and> dismissAlarm ''a1'' ''T8'' (dismissAlarm ''a1'' ''T7'' demoStore) = demoStore
   \<and> resolveAlarm ''a1'' USER_ACTION ''T7'' demoStore = demoStore
   \<and> ''a9'' \<notin> set (map a_id (alarms demoStore))
   \<and> dismissAlarm ''a9'' ''T7'' demoStore = demoStore
   \<and> resolveAlarm ''a9'' USER_ACTION ''T7'' demoStore = demoStore
   \<and> getAlarm ''a2'' demoStore = Some (demoAlarm ''a2'' ''m2'' ACTIVE None None)
   \<and> a_state (demoAlarm ''a2'' ''m2'' ACTIVE None None) = ACTIVE
   \<and> getAlarm ''a2'' (dismissAlarm ''a2'' ''T8'' (dismissAlarm ''a2'' ''T7'' demoStore)) =
       Some (demoAlarm ''a2'' ''m2'' DISMISSED (Some ''T7'') (Some METHOD_DISMISSED))"
proof -
  let ?d = "demoAlarm ''a1'' ''m1'' DISMISSED (Some ''T1'') (Some METHOD_DISMISSED)"
  let ?a = "demoAlarm ''a2'' ''m2'' ACTIVE None None"
  have h1: "getAlarm ''a1'' demoStore = Some ?d" "a_state ?d \<noteq> ACTIVE"
    by (simp_all add: getAlarm_def demoStore_def demoAlarm_def)
  have h2: "''a9'' \<notin> set (map a_id (alarms demoStore))"
    by (simp add: demoStore_def demoAlarm_def)
  have h3: "distinct (map a_id (alarms demoStore))" "?d \<in> set (alarms demoStore)"
    by (simp_all add: demoStore_def demoAlarm_def)
  have h4: "getAlarm ''a2'' demoStore = Some ?a" "a_state ?a = ACTIVE"
    by (simp_all add: getAlarm_def demoStore_def demoAlarm_def)
  have h5: "dismissed ''T7'' ?a = demoAlarm ''a2'' ''m2'' DISMISSED (Some ''T7'') (Some METHOD_DISMISSED)"
    by (simp add: dismissed_def demoAlarm_def)
  show ?thesis
    using h1 h2 h3 h4 h5
      dismiss_resolve_noop [of "''a1''" demoStore ?d "''T7''" USER_ACTION "''T8''"]
      dismiss_resolve_noop [of "''a1''" demoStore ?d "''T8''" USER_ACTION "''T8''"]
      dismiss_resolve_noop [of "''a9''" demoStore ?d "''T7''" USER_ACTION "''T8''"]
      dismiss_resolve_noop [of "''a2''" demoStore ?a "''T7''" USER_ACTION "''T8''"]
    by simp
qed

section \<open>At most one active alarm\<close>

text \<open>
  Claim C1, as stated, fails: \<open>evaluateMonitor\<close> creates an alarm whenever the new state is
  IN_ALARM and the stored state is not, without looking at the alarm store, and only
  \<open>evaluateAllMonitors\<close> resolves the active alarms of a monitor that returns to OK. Three
  direct evaluations of the default CTR composite monitor (breaching, calm, breaching)
  leave two active alarms of that monitor.
\<close>

theorem at_most_one_active_counterexample:
  "activeCount ''m1''
     (runOps [EvaluateMonitor ctrComposite demoCampaign (demoEnv ''2024-05-01T10:00:00.000Z'' breachingHistory ''a1''),
              EvaluateMonitor ctrComposite demoCampaign (demoEnv ''2024-05-01T11:00:00.000Z'' calmHistory ''a2''),
              EvaluateMonitor ctrComposite demoCampaign (demoEnv ''2024-05-01T12:00:00.000Z'' breachingHistory ''a3'')]
        emptyStore) = 2"
  by code_simp

text \<open>
  Claim C1, amended. After any sequence of \<open>evaluateAllMonitors\<close>, \<open>resolveAlarm\<close> and
  \<open>dismissAlarm\<close> operations from the empty store, every monitor has at most one active
  alarm. In such a store an evaluation creates an alarm exactly when the new state is
  IN_ALARM and the stored state of the monitor is not IN_ALARM (it is OK or absent), and
  then the monitor has no active alarm.
\<close>

theorem at_most_one_active_alarm:
  assumes "list_all (\<lambda>op. \<not> isBareEvaluate op) ops"
  shows "activeCount monitorId (runOps ops emptyStore) \<le> 1
    \<and> (\<forall>state alarm st'.
          evaluateMonitor monitor campaign env (runOps ops emptyStore) = (Inr (state, alarm), st') \<longrightarrow>
            (alarm \<noteq> None \<longleftrightarrow>
               s_state state = IN_ALARM
               \<and> \<not> wasInAlarm (getMonitorState (m_id monitor) (runOps ops emptyStore)))
            \<and> (alarm \<noteq> None \<longrightarrow> activeCount (m_id monitor) (runOps ops emptyStore) = 0))"
proof -
  have "\<forall>op\<in>set ops. \<not> isBareEvaluate op"
    using assms by (simp add: list_all_iff)
  then have inv: "storeInv (runOps ops emptyStore)"
    by (rule runOps_storeInv [OF storeInv_emptyStore])
  have one: "activeCount monitorId (runOps ops emptyStore) \<le> 1"
    by (rule storeInvD(3) [OF inv])
  have two: "(alarm \<noteq> None \<longleftrightarrow>
               s_state state = IN_ALARM
               \<and> \<not> wasInAlarm (getMonitorState (m_id monitor) (runOps ops emptyStore)))
            \<and> (alarm \<noteq> None \<longrightarrow> activeCount (m_id monitor) (runOps ops emptyStore) = 0)"
    if ev: "evaluateMonitor monitor campaign env (runOps ops emptyStore) = (Inr (state, alarm), st')"
    for state alarm st'
  proof -
    note r = evaluateMonitor_Inr(3) [OF ev]
    have a: "alarm \<noteq> None \<longleftrightarrow>
               s_state state = IN_ALARM
               \<and> \<not> wasInAlarm (getMonitorState (m_id monitor) (runOps ops emptyStore))"
      by (subst r) simp
    moreover have "activeCount (m_id monitor) (runOps ops emptyStore) = 0" if "alarm \<noteq> None"
      using activeCount_zero [OF inv, of "m_id monitor"] a that by blast
    ultimately show ?thesis by blast
  qed
  from one two show ?thesis by blast
qed

theorem at_most_one_active_alarm_witness:
  "list_all (\<lambda>op. \<not> isBareEvaluate op)
     [EvaluateAllMonitors demoCampaign
        [(ctrComposite, demoEnv ''2024-05-01T10:00:00.000Z'' breachingHistory ''a1'')],
      EvaluateAllMonitors demoCampaign
        [(ctrComposite, demoEnv ''2024-05-01T11:00:00.000Z'' calmHistory ''a2'')],
      DismissAlarm ''a1'' ''2024-05-01T11:30:00.000Z'']
   \<and> activeCount ''m1''
        (runOps [EvaluateAllMonitors demoCampaign
                  [(ctrComposite, demoEnv ''2024-05-01T10:00:00.000Z'' breachingHistory ''a1'')],
                 EvaluateAllMonitors demoCampaign
                  [(ctrComposite, demoEnv ''2024-05-01T11:00:00.000Z'' calmHistory ''a2'')],
                 DismissAlarm ''a1'' ''2024-05-01T11:30:00.000Z''] emptyStore) = 0
   \<and> (\<exists>state alarm st'.
         evaluateMonitor ctrComposite demoCampaign (demoEnv ''2024-05-01T12:00:00.000Z'' breachingHistory ''a3'')
           (runOps [EvaluateAllMonitors demoCampaign
                     [(ctrComposite, demoEnv ''2024-05-01T10:00:00.000Z'' breachingHistory ''a1'')],
                    EvaluateAllMonitors demoCampaign
                     [(ctrComposite, demoEnv ''2024-05-01T11:00:00.000Z'' calmHistory ''a2'')],
                    DismissAlarm ''a1'' ''2024-05-01T11:30:00.000Z''] emptyStore)
           = (Inr (state, alarm), st')
         \<and> alarm \<noteq> None \<and> s_state state = IN_ALARM)"
proof -
  let ?ops = "[EvaluateAllMonitors demoCampaign
                  [(ctrComposite, demoEnv ''2024-05-01T10:00:00.000Z'' breachingHistory ''a1'')],
                EvaluateAllMonitors demoCampaign
                  [(ctrComposite, demoEnv ''2024-05-01T11:00:00.000Z'' calmHistory ''a2'')],
                DismissAlarm ''a1'' ''2024-05-01T11:30:00.000Z'']"
  let ?env = "demoEnv ''2024-05-01T12:00:00.000Z'' breachingHistory ''a3''"
  have h: "list_all (\<lambda>op. \<not> isBareEvaluate op) ?ops" by simp
  have c: "case evaluateMonitor ctrComposite demoCampaign ?env (runOps ?ops emptyStore) of
             (Inr (state, alarm), st') \<Rightarrow> alarm \<noteq> None | (Inl err, st') \<Rightarrow> False"
    by code_simp
  then obtain state alarm st' where
    ev: "evaluateMonitor ctrComposite demoCampaign ?env (runOps ?ops emptyStore) = (Inr (state, alarm), st')"
    and al: "alarm \<noteq> None"
    by (auto split: prod.splits sum.splits)
  have m: "m_id ctrComposite = ''m1''" by (simp add: ctrComposite_def demoMonitor_def)
  from at_most_one_active_alarm [OF h, of "''m1''" ctrComposite demoCampaign ?env] ev al m
  have "activeCount ''m1'' (runOps ?ops emptyStore) = 0 \<and> s_state state = IN_ALARM"
    by auto
  with h ev al show ?thesis by blast
qed

section \<open>Auto-resolution in a batch\<close>

lemma filter_autoResolved_empty:
  "filter (\<lambda>a. a_monitorId a = k \<and> a_state a = ACTIVE)
     (map (\<lambda>a. if a_monitorId a = k \<and> a_state a = ACTIVE then resolved method (clock (a_id a)) a else a) xs) = []"
  by (induction xs) simp_all

lemma find_map_distinct:
  assumes "distinct (map f xs)" and "a \<in> set xs" and "\<And>b. f (g b) = f b"
  shows "find (\<lambda>b. f b = f a) (map g xs) = Some (g a)"
proof -
  have eq: "map f (map g xs) = map f xs" using assms(3) by (induction xs) simp_all
  have d: "distinct (map f (map g xs))" using assms(1) by (simp only: eq)
  have m: "g a \<in> set (map g xs)" using assms(2) by simp
  from find_distinct_key [OF d m] show ?thesis by (simp only: assms(3))
qed

lemma getAlarm_resolveAlarm_keep:
  assumes "getAlarm i st = Some x" and "a_state x \<noteq> ACTIVE"
  shows "getAlarm i (resolveAlarm j method now st) = Some x"
proof (cases "getAlarm j st")
  case None
  then show ?thesis using assms(1) by (simp add: resolveAlarm_eq)
next
  case (Some a)
  show ?thesis
  proof (cases "a_state a = ACTIVE")
    case False
    then show ?thesis using Some assms(1) by (simp add: resolveAlarm_eq)
  next
    case True
    have ja: "a_id a = j" using getAlarm_id [OF Some] by blast
    have "i \<noteq> j"
    proof
      assume "i = j"
      then have "a = x" using Some assms(1) by simp
      with True assms(2) show False by simp
    qed
    then show ?thesis using Some True assms(1) ja by (simp add: resolveAlarm_eq getAlarm_saveAlarm)
  qed
qed

lemma getAlarm_foldl_resolve_keep:
  "getAlarm i st = Some x \<Longrightarrow> a_state x \<noteq> ACTIVE \<Longrightarrow>
   getAlarm i (foldl (\<lambda>s alarm. resolveAlarm (a_id alarm) method (clock (a_id alarm)) s) st acts) = Some x"
proof (induction acts arbitrary: st)
  case Nil
  then show ?case by simp
next
  case (Cons b bs)
  have "getAlarm i (resolveAlarm (a_id b) method (clock (a_id b)) st) = Some x"
    by (rule getAlarm_resolveAlarm_keep [OF Cons.prems])
  from Cons.IH [OF this Cons.prems(2)] show ?case by simp
qed

lemma getAlarm_autoResolve_keep:
  "getAlarm i st = Some x \<Longrightarrow> a_state x \<noteq> ACTIVE \<Longrightarrow>
   getAlarm i (autoResolveAlarms monitor state clock st) = Some x"
  by (simp add: autoResolveAlarms_def getAlarm_foldl_resolve_keep)

lemma getAlarm_evaluateMonitor_keep:
  assumes "evaluateMonitor monitor campaign env st = (Inr (state, alarm), st1)" and "e_uuid env \<noteq> i"
  shows "getAlarm i st1 = getAlarm i st"
proof (cases alarm)
  case None
  then show ?thesis using evaluateMonitor_Inr(5) [OF assms(1)] by (simp add: getAlarm_def)
next
  case (Some x)
  have x: "x = buildAlarm monitor campaign state env"
    using evaluateMonitor_Inr(3) [OF assms(1)] Some by (simp split: if_splits)
  have "alarms st1 = upsert (\<lambda>b. a_id b = a_id x) x (alarms st)"
    using evaluateMonitor_Inr(5) [OF assms(1)] Some by simp
  then show ?thesis
    using find_upsert [of a_id i x "alarms st"] assms(2) x by (simp add: getAlarm_def)
qed

lemma evaluateLoop_keeps_inactive:
  "getAlarm i st = Some x \<Longrightarrow> a_state x \<noteq> ACTIVE \<Longrightarrow> i \<notin> set (map (e_uuid \<circ> snd) ms) \<Longrightarrow>
   getAlarm i (snd (evaluateLoop campaign ms states newAlarms st)) = Some x"
proof (induction ms arbitrary: states newAlarms st)
  case Nil
  then show ?case by simp
next
  case (Cons p rest)
  obtain monitor env where p: "p = (monitor, env)" by (cases p)
  have ni: "e_uuid env \<noteq> i" and rest: "i \<notin> set (map (e_uuid \<circ> snd) rest)"
    using Cons.prems(3) p by auto
  show ?case
  proof (cases "m_enabled monitor")
    case False
    then show ?thesis using Cons.IH [OF Cons.prems(1,2) rest] p by simp
  next
    case True
    obtain res st1 where ev: "evaluateMonitor monitor campaign env st = (res, st1)"
      by (cases "evaluateMonitor monitor campaign env st")
    show ?thesis
    proof (cases res)
      case (Inl err)
      then have "st1 = st" using evaluateMonitor_Inl ev by blast
      then show ?thesis using Cons.prems(1) p True ev Inl by simp
    next
      case (Inr sa)
      obtain state alarm where sa: "sa = (state, alarm)" by (cases sa)
      have ev': "evaluateMonitor monitor campaign env st = (Inr (state, alarm), st1)"
        using ev Inr sa by simp
      have "getAlarm i st1 = Some x"
        using getAlarm_evaluateMonitor_keep [OF ev' ni] Cons.prems(1) by simp
      then have "getAlarm i (autoResolveAlarms monitor state (e_resolvedAt env) st1) = Some x"
        using Cons.prems(2) by (rule getAlarm_autoResolve_keep)
      from Cons.IH [OF this Cons.prems(2) rest] show ?thesis
        unfolding p evaluateLoop_step [OF True ev'] .
    qed
  qed
qed

lemma batch_after_OK:
  assumes ids: "distinct (map a_id (alarms st))"
    and pre: "evaluateAllMonitors campaign pre st = (Inr done, st1)"
    and en: "m_enabled monitor"
    and ev: "evaluateMonitor monitor campaign env st1 = (Inr (state, alarm), st2)"
    and ok: "s_state state = OK"
  shows "\<exists>states2 newAlarms2 st3.
           (\<forall>rest. evaluateAllMonitors campaign (pre @ (monitor, env) # rest) st =
                     evaluateLoop campaign rest states2 newAlarms2 st3)
           \<and> alarms st3 =
               map (\<lambda>a. if a_monitorId a = m_id monitor \<and> a_state a = ACTIVE
                         then resolved AUTO_RESOLVED (e_resolvedAt env (a_id a)) a else a) (alarms st1)
           \<and> distinct (map a_id (alarms st1))"
proof -
  let ?st3 = "autoResolveAlarms monitor state (e_resolvedAt env) st2"
  obtain states1 newAlarms1 where dn: "done = (states1, newAlarms1)" by (cases "done")
  have pre': "evaluateLoop campaign pre [] [] st = (Inr (states1, newAlarms1), st1)"
    using pre dn by (simp add: evaluateAllMonitors_def)
  have "distinct (map a_id (alarms (snd (evaluateLoop campaign pre [] [] st))))"
    by (rule evaluateLoop_distinct [OF ids])
  then have d1: "distinct (map a_id (alarms st1))" by (simp add: pre')
  have d2: "distinct (map a_id (alarms st2))" by (rule distinct_evaluateMonitor [OF d1 ev])
  have "alarm = None" using evaluateMonitor_Inr(3) [OF ev] ok by simp
  then have a2: "alarms st2 = alarms st1" using evaluateMonitor_Inr(5) [OF ev] by simp
  have a3: "alarms ?st3 =
               map (\<lambda>a. if a_monitorId a = m_id monitor \<and> a_state a = ACTIVE
                         then resolved AUTO_RESOLVED (e_resolvedAt env (a_id a)) a else a) (alarms st1)"
    using autoResolve_alarms [OF d2 ok, of monitor "e_resolvedAt env"] by (simp only: a2)
  have step: "evaluateAllMonitors campaign (pre @ (monitor, env) # rest) st =
                  evaluateLoop campaign rest (states1 @ [state])
                       (case alarm of None \<Rightarrow> newAlarms1 | Some a \<Rightarrow> newAlarms1 @ [a]) ?st3" for rest
  proof -
    have "evaluateLoop campaign (pre @ (monitor, env) # rest) [] [] st =
            evaluateLoop campaign ((monitor, env) # rest) states1 newAlarms1 st1"
      by (rule evaluateLoop_append [OF pre'])
    also have "\<dots> = evaluateLoop campaign rest (states1 @ [state])
                         (case alarm of None \<Rightarrow> newAlarms1 | Some a \<Rightarrow> newAlarms1 @ [a]) ?st3"
      by (rule evaluateLoop_step [OF en ev])
    finally show ?thesis by (simp only: evaluateAllMonitors_def)
  qed
  from step a3 d1 show ?thesis by blast
qed

text \<open>
  Claim C4, as stated, fails. A batch may evaluate the same monitor more than once, and the
  expected value is drawn afresh on every evaluation: with the stored samples unchanged,
  the monitor m1 is evaluated to OK (its active alarm is resolved) and then to IN_ALARM,
  which creates a new alarm, so that an active alarm of the monitor remains when the batch
  completes. And \<open>resolveAlarm\<close> looks an alarm up by its id: in a store where a resolved
  alarm and an active alarm of the monitor carry the same id, the evaluation to OK leaves
  the active one as it is.
\<close>

theorem autoResolve_not_final_counterexample:
  "activeCount ''m1''
     (snd (evaluateAllMonitors demoCampaign
        [(ctrComposite, drawEnv ''2024-05-01T10:00:00.000Z'' swingHistory ''a1'' 0)] emptyStore)) = 1
   \<and> map_sum id (map s_state \<circ> fst)
        (fst (evaluateAllMonitors demoCampaign
           [(ctrComposite, drawEnv ''2024-05-01T11:00:00.000Z'' swingHistory ''a2'' (9 / 10)),
            (ctrComposite, drawEnv ''2024-05-01T11:00:01.000Z'' swingHistory ''a3'' 0)]
           (snd (evaluateAllMonitors demoCampaign
              [(ctrComposite, drawEnv ''2024-05-01T10:00:00.000Z'' swingHistory ''a1'' 0)] emptyStore))))
       = Inr [OK, IN_ALARM]
   \<and> activeCount ''m1''
        (snd (evaluateAllMonitors demoCampaign
           [(ctrComposite, drawEnv ''2024-05-01T11:00:00.000Z'' swingHistory ''a2'' (9 / 10)),
            (ctrComposite, drawEnv ''2024-05-01T11:00:01.000Z'' swingHistory ''a3'' 0)]
           (snd (evaluateAllMonitors demoCampaign
              [(ctrComposite, drawEnv ''2024-05-01T10:00:00.000Z'' swingHistory ''a1'' 0)] emptyStore)))) = 1
   \<and> map_sum id (map s_state \<circ> fst)
        (fst (evaluateAllMonitors demoCampaign
           [(ctrComposite, demoEnv ''2024-05-01T11:00:00.000Z'' calmHistory ''a2'')] duplicateIdStore))
       = Inr [OK]
   \<and> map a_state
        (alarms (snd (evaluateAllMonitors demoCampaign
           [(ctrComposite, demoEnv ''2024-05-01T11:00:00.000Z'' calmHistory ''a2'')] duplicateIdStore)))
       = [RESOLVED, ACTIVE]"
  by code_simp

text \<open>
  Claim C4, amended. Let the store have unique alarm ids and let a batch evaluate an
  enabled monitor to OK after the monitors before it evaluated normally. Then the batch
  that ends with this monitor leaves exactly the alarms that were in the store when the
  monitor was evaluated, each alarm of the monitor that was ACTIVE now RESOLVED with
  method AUTO_RESOLVED and \<open>resolvedAt\<close> set to the time of its resolution, and every other
  alarm unchanged. When monitors follow in the batch, none of them the same monitor, the
  monitor has no ACTIVE alarm in the store the batch leaves; and each of its alarms that
  was ACTIVE is found there resolved as above, unless a later alarm of the batch is saved
  under the same id.
\<close>

theorem autoResolve_in_batch:
  assumes ids: "distinct (map a_id (alarms st))"
    and pre: "evaluateAllMonitors campaign pre st = (Inr done, st1)"
    and en: "m_enabled monitor"
    and ev: "evaluateMonitor monitor campaign env st1 = (Inr (state, alarm), st2)"
    and ok: "s_state state = OK"
  shows "alarms (snd (evaluateAllMonitors campaign (pre @ [(monitor, env)]) st)) =
           map (\<lambda>a. if a_monitorId a = m_id monitor \<and> a_state a = ACTIVE
                     then a\<lparr>a_state := RESOLVED, a_resolvedAt := Some (e_resolvedAt env (a_id a)),
                            a_resolutionMethod := Some AUTO_RESOLVED\<rparr>
                     else a) (alarms st1)
       \<and> (m_id monitor \<notin> set (map (m_id \<circ> fst) post) \<longrightarrow>
            activeCount (m_id monitor)
              (snd (evaluateAllMonitors campaign (pre @ (monitor, env) # post) st)) = 0)
       \<and> (\<forall>a\<in>set (alarms st1).
            a_monitorId a = m_id monitor \<and> a_state a = ACTIVE
            \<and> a_id a \<notin> set (map (e_uuid \<circ> snd) post) \<longrightarrow>
            getAlarm (a_id a) (snd (evaluateAllMonitors campaign (pre @ (monitor, env) # post) st)) =
              Some (a\<lparr>a_state := RESOLVED, a_resolvedAt := Some (e_resolvedAt env (a_id a)),
                      a_resolutionMethod := Some AUTO_RESOLVED\<rparr>))"
proof -
  let ?g = "\<lambda>a. if a_monitorId a = m_id monitor \<and> a_state a = ACTIVE
                 then resolved AUTO_RESOLVED (e_resolvedAt env (a_id a)) a else a"
  let ?h = "\<lambda>a. if a_monitorId a = m_id monitor \<and> a_state a = ACTIVE
                     then a\<lparr>a_state := RESOLVED, a_resolvedAt := Some (e_resolvedAt env (a_id a)),
                            a_resolutionMethod := Some AUTO_RESOLVED\<rparr>
                     else a"
  have gh: "?g = ?h" by (simp only: resolved_def)
  from batch_after_OK [OF ids pre en ev ok] obtain states2 newAlarms2 st3 where
    all: "(\<forall>rest. evaluateAllMonitors campaign (pre @ (monitor, env) # rest) st =
                     evaluateLoop campaign rest states2 newAlarms2 st3)
           \<and> alarms st3 = map ?g (alarms st1)
           \<and> distinct (map a_id (alarms st1))"
    by (elim exE)
  from all have step: "\<And>rest. evaluateAllMonitors campaign (pre @ (monitor, env) # rest) st =
                     evaluateLoop campaign rest states2 newAlarms2 st3"
    by (elim conjE allE)
  from all have a3: "alarms st3 = map ?g (alarms st1)" by (elim conjE)
  from all have d1: "distinct (map a_id (alarms st1))" by (elim conjE)
  have one: "alarms (snd (evaluateAllMonitors campaign (pre @ [(monitor, env)]) st)) = map ?h (alarms st1)"
  proof -
    have "evaluateAllMonitors campaign (pre @ [(monitor, env)]) st = (Inr (states2, newAlarms2), st3)"
      unfolding step [of "[]"] by (rule evaluateLoop.simps(1))
    then have "alarms (snd (evaluateAllMonitors campaign (pre @ [(monitor, env)]) st)) = alarms st3"
      by (simp only: snd_conv)
    also have "\<dots> = map ?h (alarms st1)" by (simp only: a3 gh)
    finally show ?thesis .
  qed
  have two: "activeCount (m_id monitor)
              (snd (evaluateAllMonitors campaign (pre @ (monitor, env) # post) st)) = 0"
    if later: "m_id monitor \<notin> set (map (m_id \<circ> fst) post)"
  proof -
    have "filter (\<lambda>a. a_monitorId a = m_id monitor \<and> a_state a = ACTIVE) (map ?g (alarms st1)) = []"
      by (rule filter_autoResolved_empty)
    then have z: "activeCount (m_id monitor) st3 = 0"
      by (simp only: activeCount_alt a3 list.size)
    from evaluateLoop_no_active [OF z later, of campaign states2 newAlarms2]
    show ?thesis by (simp only: step)
  qed
  have three: "getAlarm (a_id a) (snd (evaluateAllMonitors campaign (pre @ (monitor, env) # post) st)) =
              Some (a\<lparr>a_state := RESOLVED, a_resolvedAt := Some (e_resolvedAt env (a_id a)),
                      a_resolutionMethod := Some AUTO_RESOLVED\<rparr>)"
    if a: "a \<in> set (alarms st1)"
      and h: "a_monitorId a = m_id monitor \<and> a_state a = ACTIVE
              \<and> a_id a \<notin> set (map (e_uuid \<circ> snd) post)" for a
  proof -
    have idg: "\<And>b. a_id (?g b) = a_id b"
      by (rule autoResolve_step_id)
    have "find (\<lambda>b. a_id b = a_id a) (map ?g (alarms st1)) = Some (?g a)"
      using find_map_distinct [of a_id "alarms st1" a ?g] d1 a idg by blast
    moreover have "?g a = resolved AUTO_RESOLVED (e_resolvedAt env (a_id a)) a"
      using h by simp
    ultimately have g3: "getAlarm (a_id a) st3 = Some (resolved AUTO_RESOLVED (e_resolvedAt env (a_id a)) a)"
      by (simp only: getAlarm_def a3)
    have na: "a_state (resolved AUTO_RESOLVED (e_resolvedAt env (a_id a)) a) \<noteq> ACTIVE" by simp
    from h have fresh: "a_id a \<notin> set (map (e_uuid \<circ> snd) post)" by blast
    from evaluateLoop_keeps_inactive [OF g3 na fresh, of campaign states2 newAlarms2]
    have "getAlarm (a_id a) (snd (evaluateAllMonitors campaign (pre @ (monitor, env) # post) st)) =
            Some (resolved AUTO_RESOLVED (e_resolvedAt env (a_id a)) a)"
      by (simp only: step)
    then show ?thesis by (simp only: resolved_def)
  qed
  show ?thesis
  proof (intro conjI)
    show "alarms (snd (evaluateAllMonitors campaign (pre @ [(monitor, env)]) st)) = map ?h (alarms st1)"
      by (rule one)
    show "m_id monitor \<notin> set (map (m_id \<circ> fst) post) \<longrightarrow>
            activeCount (m_id monitor)
              (snd (evaluateAllMonitors campaign (pre @ (monitor, env) # post) st)) = 0"
      by (rule impI) (rule two)
    show "\<forall>a\<in>set (alarms st1).
            a_monitorId a = m_id monitor \<and> a_state a = ACTIVE
            \<and> a_id a \<notin> set (map (e_uuid \<circ> snd) post) \<longrightarrow>
            getAlarm (a_id a) (snd (evaluateAllMonitors campaign (pre @ (monitor, env) # post) st)) =
              Some (a\<lparr>a_state := RESOLVED, a_resolvedAt := Some (e_resolvedAt env (a_id a)),
                      a_resolutionMethod := Some AUTO_RESOLVED\<rparr>)"
      by (intro ballI impI) (rule three)
  qed
qed

theorem autoResolve_in_batch_witness:
  "distinct (map a_id (alarms (snd (evaluateAllMonitors demoCampaign
       [(ctrComposite, demoEnv ''2024-05-01T10:00:00.000Z'' breachingHistory ''a1'')] emptyStore))))
   \<and> m_enabled ctrComposite
   \<and> m_id ctrComposite \<notin> set (map (m_id \<circ> fst) [(cpaSimple, demoEnv ''2024-05-01T11:00:02.000Z'' [] ''a4'')])
   \<and> ''a1'' \<notin> set (map (e_uuid \<circ> snd) [(cpaSimple, demoEnv ''2024-05-01T11:00:02.000Z'' [] ''a4'')])
   \<and> map (\<lambda>a. (a_id a, a_monitorId a, a_state a))
        (alarms (snd (evaluateAllMonitors demoCampaign
           [(ctrComposite, demoEnv ''2024-05-01T10:00:00.000Z'' breachingHistory ''a1'')] emptyStore)))
       = [(''a1'', ''m1'', ACTIVE)]
   \<and> (\<exists>done st1 state alarm st2.
         evaluateAllMonitors demoCampaign [(cpaSimple, demoEnv ''2024-05-01T11:00:00.000Z'' [] ''a2'')]
           (snd (evaluateAllMonitors demoCampaign
              [(ctrComposite, demoEnv ''2024-05-01T10:00:00.000Z'' breachingHistory ''a1'')] emptyStore))
           = (Inr done, st1)
         \<and> evaluateMonitor ctrComposite demoCampaign (demoEnv ''2024-05-01T11:00:01.000Z'' calmHistory ''a3'') st1
             = (Inr (state, alarm), st2)
         \<and> s_state state = OK
         \<and> alarms (snd (evaluateAllMonitors demoCampaign
               ([(cpaSimple, demoEnv ''2024-05-01T11:00:00.000Z'' [] ''a2'')]
                 @ [(ctrComposite, demoEnv ''2024-05-01T11:00:01.000Z'' calmHistory ''a3'')])
               (snd (evaluateAllMonitors demoCampaign
                  [(ctrComposite, demoEnv ''2024-05-01T10:00:00.000Z'' breachingHistory ''a1'')] emptyStore))))
             = map (\<lambda>a. if a_monitorId a = m_id ctrComposite \<and> a_state a = ACTIVE
                       then a\<lparr>a_state := RESOLVED,
                              a_resolvedAt := Some (e_resolvedAt (demoEnv ''2024-05-01T11:00:01.000Z'' calmHistory ''a3'') (a_id a)),
                              a_resolutionMethod := Some AUTO_RESOLVED\<rparr>
                       else a) (alarms st1))
   \<and> map (\<lambda>a. (a_id a, a_monitorId a, a_state a, a_resolvedAt a, a_resolutionMethod a))
        (alarms (snd (evaluateAllMonitors demoCampaign
           ([(cpaSimple, demoEnv ''2024-05-01T11:00:00.000Z'' [] ''a2'')]
             @ [(ctrComposite, demoEnv ''2024-05-01T11:00:01.000Z'' calmHistory ''a3'')])
           (snd (evaluateAllMonitors demoCampaign
              [(ctrComposite, demoEnv ''2024-05-01T10:00:00.000Z'' breachingHistory ''a1'')] emptyStore)))))
       = [(''a1'', ''m1'', RESOLVED, Some ''2024-05-01T11:00:01.000Z'', Some AUTO_RESOLVED),
          (''a2'', ''m2'', ACTIVE, None, None)]
   \<and> activeCount (m_id ctrComposite) (snd (evaluateAllMonitors demoCampaign
        ([(cpaSimple, demoEnv ''2024-05-01T11:00:00.000Z'' [] ''a2'')]
          @ (ctrComposite, demoEnv ''2024-05-01T11:00:01.000Z'' calmHistory ''a3'')
          # [(cpaSimple, demoEnv ''2024-05-01T11:00:02.000Z'' [] ''a4'')])
        (snd (evaluateAllMonitors demoCampaign
           [(ctrComposite, demoEnv ''2024-05-01T10:00:00.000Z'' breachingHistory ''a1'')] emptyStore)))) = 0"
proof -
  let ?S0 = "snd (evaluateAllMonitors demoCampaign
       [(ctrComposite, demoEnv ''2024-05-01T10:00:00.000Z'' breachingHistory ''a1'')] emptyStore)"
  let ?pre = "[(cpaSimple, demoEnv ''2024-05-01T11:00:00.000Z'' [] ''a2'')]"
  let ?env = "demoEnv ''2024-05-01T11:00:01.000Z'' calmHistory ''a3''"
  let ?post = "[(cpaSimple, demoEnv ''2024-05-01T11:00:02.000Z'' [] ''a4'')]"
  have h1: "distinct (map a_id (alarms ?S0))" by code_simp
  have h2: "m_enabled ctrComposite" by code_simp
  have h3: "m_id ctrComposite \<notin> set (map (m_id \<circ> fst) ?post)" by code_simp
  have h4: "''a1'' \<notin> set (map (e_uuid \<circ> snd) ?post)" by code_simp
  have h5: "map (\<lambda>a. (a_id a, a_monitorId a, a_state a)) (alarms ?S0) = [(''a1'', ''m1'', ACTIVE)]"
    by code_simp
  have h6: "map (\<lambda>a. (a_id a, a_monitorId a, a_state a, a_resolvedAt a, a_resolutionMethod a))
        (alarms (snd (evaluateAllMonitors demoCampaign (?pre @ [(ctrComposite, ?env)]) ?S0)))
       = [(''a1'', ''m1'', RESOLVED, Some ''2024-05-01T11:00:01.000Z'', Some AUTO_RESOLVED),
          (''a2'', ''m2'', ACTIVE, None, None)]"
    by code_simp
  have c: "case evaluateAllMonitors demoCampaign ?pre ?S0 of
             (Inr done, st1) \<Rightarrow>
               (case evaluateMonitor ctrComposite demoCampaign ?env st1 of
                  (Inr (state, alarm), st2) \<Rightarrow> s_state state = OK
                | (Inl err, st2) \<Rightarrow> False)
           | (Inl err, st1) \<Rightarrow> False"
    by code_simp
  then obtain "done" st1 state alarm st2 where
    pre: "evaluateAllMonitors demoCampaign ?pre ?S0 = (Inr done, st1)"
    and ev: "evaluateMonitor ctrComposite demoCampaign ?env st1 = (Inr (state, alarm), st2)"
    and ok: "s_state state = OK"
    by (auto split: prod.splits sum.splits)
  note t = autoResolve_in_batch [OF h1 pre h2 ev ok, of ?post]
  from t have t1: "alarms (snd (evaluateAllMonitors demoCampaign (?pre @ [(ctrComposite, ?env)]) ?S0)) =
           map (\<lambda>a. if a_monitorId a = m_id ctrComposite \<and> a_state a = ACTIVE
                     then a\<lparr>a_state := RESOLVED, a_resolvedAt := Some (e_resolvedAt ?env (a_id a)),
                            a_resolutionMethod := Some AUTO_RESOLVED\<rparr>
                     else a) (alarms st1)"
    by (rule conjunct1)
  from t h3 have t2: "activeCount (m_id ctrComposite)
          (snd (evaluateAllMonitors demoCampaign (?pre @ (ctrComposite, ?env) # ?post) ?S0)) = 0"
    by blast
  from pre ev ok t1 have ex: "\<exists>done st1 state alarm st2.
         evaluateAllMonitors demoCampaign ?pre ?S0 = (Inr done, st1)
         \<and> evaluateMonitor ctrComposite demoCampaign ?env st1 = (Inr (state, alarm), st2)
         \<and> s_state state = OK
         \<and> alarms (snd (evaluateAllMonitors demoCampaign (?pre @ [(ctrComposite, ?env)]) ?S0))
             = map (\<lambda>a. if a_monitorId a = m_id ctrComposite \<and> a_state a = ACTIVE
                       then a\<lparr>a_state := RESOLVED, a_resolvedAt := Some (e_resolvedAt ?env (a_id a)),
                              a_resolutionMethod := Some AUTO_RESOLVED\<rparr>
                       else a) (alarms st1)"
    by (intro exI conjI)
  show ?thesis
    by (intro conjI) (rule h1, rule h2, rule h3, rule h4, rule h5, rule ex, rule h6, rule t2)
qed

section \<open>A failing evaluation\<close>

text \<open>
  Claim C5, as stated, fails: the loop of \<open>evaluateAllMonitors\<close> awaits \<open>evaluateMonitor\<close>
  without a try/catch. When the metric-source read of the first of two enabled monitors
  raises, the batch ends with that exception and the second monitor is never evaluated,
  although on its own it evaluates and gets a stored state.
\<close>

theorem evaluateAllMonitors_no_isolation_counterexample:
  "m_enabled ctrComposite \<and> m_enabled cpaSimple
   \<and> fst (evaluateAllMonitors demoCampaign
            [(ctrComposite, failingEnv), (cpaSimple, demoEnv ''2024-05-01T10:00:00.000Z'' [] ''a1'')]
            emptyStore) = Inl ''metric source unavailable''
   \<and> getMonitorState ''m2''
        (snd (evaluateAllMonitors demoCampaign
               [(ctrComposite, failingEnv), (cpaSimple, demoEnv ''2024-05-01T10:00:00.000Z'' [] ''a1'')]
               emptyStore)) = None
   \<and> getMonitorState ''m2''
        (snd (evaluateAllMonitors demoCampaign
               [(cpaSimple, demoEnv ''2024-05-01T10:00:00.000Z'' [] ''a1'')] emptyStore)) \<noteq> None"
  by code_simp

text \<open>
  Claim C5, amended. When the monitors before an enabled monitor evaluate normally and the
  metric-source read of that monitor raises, \<open>evaluateAllMonitors\<close> ends with the exception
  and returns no states or alarms; the store is the one left by the monitors before it, so
  the monitors after it are not evaluated, and the stored state of the failing monitor is
  untouched.
\<close>

theorem evaluateAllMonitors_failure_aborts:
  assumes pre: "evaluateAllMonitors campaign pre st = (Inr done, st1)"
    and en: "m_enabled monitor"
    and err: "e_sourceError env = Some err"
  shows "evaluateAllMonitors campaign (pre @ (monitor, env) # post) st = (Inl err, st1)
       \<and> (m_id monitor \<notin> set (map (m_id \<circ> fst) pre) \<longrightarrow>
            getMonitorState (m_id monitor) st1 = getMonitorState (m_id monitor) st)"
proof
  obtain states1 newAlarms1 where dn: "done = (states1, newAlarms1)" by (cases "done")
  have pre': "evaluateLoop campaign pre [] [] st = (Inr (states1, newAlarms1), st1)"
    using pre dn by (simp add: evaluateAllMonitors_def)
  have "evaluateLoop campaign (pre @ (monitor, env) # post) [] [] st =
          evaluateLoop campaign ((monitor, env) # post) states1 newAlarms1 st1"
    by (rule evaluateLoop_append [OF pre'])
  also have "\<dots> = (Inl err, st1)"
    by (rule evaluateLoop_throw [OF en evaluateMonitor_throw [OF err]])
  finally show "evaluateAllMonitors campaign (pre @ (monitor, env) # post) st = (Inl err, st1)"
    by (simp only: evaluateAllMonitors_def)
  show "m_id monitor \<notin> set (map (m_id \<circ> fst) pre) \<longrightarrow>
            getMonitorState (m_id monitor) st1 = getMonitorState (m_id monitor) st"
  proof
    assume "m_id monitor \<notin> set (map (m_id \<circ> fst) pre)"
    from evaluateLoop_other_state [OF this, of campaign "[]" "[]" st]
    show "getMonitorState (m_id monitor) st1 = getMonitorState (m_id monitor) st"
      by (simp add: pre')
  qed
qed

theorem evaluateAllMonitors_failure_aborts_witness:
  "m_enabled ctrComposite
   \<and> e_sourceError failingEnv = Some ''metric source unavailable''
   \<and> m_id ctrComposite \<notin> set (map (m_id \<circ> fst) [(cpaSimple, demoEnv ''2024-05-01T10:00:00.000Z'' [] ''a1'')])
   \<and> (\<exists>done st1.
         evaluateAllMonitors demoCampaign [(cpaSimple, demoEnv ''2024-05-01T10:00:00.000Z'' [] ''a1'')] emptyStore
           = (Inr done, st1)
         \<and> evaluateAllMonitors demoCampaign
             ([(cpaSimple, demoEnv ''2024-05-01T10:00:00.000Z'' [] ''a1'')]
               @ (ctrComposite, failingEnv)
               # [(cpaSimple, demoEnv ''2024-05-01T10:00:01.000Z'' [] ''a2'')]) emptyStore
           = (Inl ''metric source unavailable'', st1)
         \<and> getMonitorState (m_id ctrComposite) st1 = getMonitorState (m_id ctrComposite) emptyStore)"
proof -
  let ?pre = "[(cpaSimple, demoEnv ''2024-05-01T10:00:00.000Z'' [] ''a1'')]"
  let ?post = "[(cpaSimple, demoEnv ''2024-05-01T10:00:01.000Z'' [] ''a2'')]"
  have h1: "m_enabled ctrComposite" by code_simp
  have h2: "e_sourceError failingEnv = Some ''metric source unavailable''" by code_simp
  have h3: "m_id ctrComposite \<notin> set (map (m_id \<circ> fst) ?pre)" by code_simp
  have c: "case evaluateAllMonitors demoCampaign ?pre emptyStore of
             (Inr done, st1) \<Rightarrow> True | (Inl err, st1) \<Rightarrow> False"
    by code_simp
  then obtain "done" st1 where
    pre: "evaluateAllMonitors demoCampaign ?pre emptyStore = (Inr done, st1)"
    by (auto split: prod.splits sum.splits)
  from evaluateAllMonitors_failure_aborts [OF pre h1 h2, of ?post] h3
  have "evaluateAllMonitors demoCampaign (?pre @ (ctrComposite, failingEnv) # ?post) emptyStore
          = (Inl ''metric source unavailable'', st1)
        \<and> getMonitorState (m_id ctrComposite) st1 = getMonitorState (m_id ctrComposite) emptyStore"
    by blast
  with h1 h2 h3 pre show ?thesis by blast
qed

section \<open>The state computed by evaluateMonitor\<close>

text \<open>
  \<open>evaluateMonitor\<close> passes 0 as the elapsed time, and \<open>generateValue\<close> multiplies by the
  elapsed fraction of the day: the current value is 0 whatever the hour, the day and the
  draws of the simulation are.
\<close>

lemma generateCurrentMetricValue_zero:
  "generateCurrentMetricValue campaign metricId 0 env = 0"
  by (simp add: generateCurrentMetricValue_def generateValue_def applyAnomaly_def Let_def)





lemma computeNewState_env:
  assumes "e_timestamp env1 = e_timestamp env2"
    and "e_metricValues env1 = e_metricValues env2"
    and "e_expectedRandom env1 = e_expectedRandom env2"
  shows "(computeNewState monitor campaign env1 prev)\<lparr>s_dimensions := None\<rparr> =
         (computeNewState monitor campaign env2 prev)\<lparr>s_dimensions := None\<rparr>"
    and "s_state (computeNewState monitor campaign env1 prev) = s_state (computeNewState monitor campaign env2 prev)"
    and "e_granularRandom env1 = e_granularRandom env2 \<Longrightarrow>
         computeNewState monitor campaign env1 prev = computeNewState monitor campaign env2 prev"
  using assms
  by (auto simp add: computeNewState_def generateCurrentMetricValue_zero Let_def split: prod.split)

lemma newStateOf_env:
  assumes "e_timestamp env1 = e_timestamp env2"
    and "e_savedAt env1 = e_savedAt env2"
    and "e_metricValues env1 = e_metricValues env2"
    and "e_expectedRandom env1 = e_expectedRandom env2"
  shows "(newStateOf monitor campaign env1 st)\<lparr>s_dimensions := None\<rparr> =
         (newStateOf monitor campaign env2 st)\<lparr>s_dimensions := None\<rparr>"
    and "s_state (newStateOf monitor campaign env1 st) = s_state (newStateOf monitor campaign env2 st)"
    and "e_granularRandom env1 = e_granularRandom env2 \<Longrightarrow>
         newStateOf monitor campaign env1 st = newStateOf monitor campaign env2 st"
proof -
  let ?p = "getMonitorState (m_id monitor) st"
  have a: "(computeNewState monitor campaign env1 ?p)\<lparr>s_dimensions := None\<rparr> =
         (computeNewState monitor campaign env2 ?p)\<lparr>s_dimensions := None\<rparr>"
    by (rule computeNewState_env(1) [OF assms(1,3,4)])
  have "(newStateOf monitor campaign env1 st)\<lparr>s_dimensions := None\<rparr> =
        ((computeNewState monitor campaign env1 ?p)\<lparr>s_dimensions := None\<rparr>)\<lparr>s_updatedAt := e_savedAt env2\<rparr>"
    by (simp add: newStateOf_def assms(2))
  also have "\<dots> = ((computeNewState monitor campaign env2 ?p)\<lparr>s_dimensions := None\<rparr>)\<lparr>s_updatedAt := e_savedAt env2\<rparr>"
    by (simp only: a)
  also have "\<dots> = (newStateOf monitor campaign env2 st)\<lparr>s_dimensions := None\<rparr>"
    by (simp add: newStateOf_def)
  finally show "(newStateOf monitor campaign env1 st)\<lparr>s_dimensions := None\<rparr> =
         (newStateOf monitor campaign env2 st)\<lparr>s_dimensions := None\<rparr>" .
  show "s_state (newStateOf monitor campaign env1 st) = s_state (newStateOf monitor campaign env2 st)"
    using computeNewState_env(2) [OF assms(1,3,4), of monitor campaign ?p]
    by (simp add: newStateOf_def)
  show "newStateOf monitor campaign env1 st = newStateOf monitor campaign env2 st"
    if "e_granularRandom env1 = e_granularRandom env2"
    using computeNewState_env(3) [OF assms(1,3,4) that, of monitor campaign ?p]
    by (simp add: newStateOf_def assms(2))
qed

lemma buildAlarm_env:
  assumes "e_uuid env1 = e_uuid env2" and "e_insights env1 = e_insights env2"
  shows "buildAlarm monitor campaign state env1 = buildAlarm monitor campaign state env2"
  using assms by (simp add: buildAlarm_def Let_def)

section \<open>Time of entry into the state\<close>

text \<open>
  Claim C2, evaluated on the code. Five evaluations of the default CTR monitor (2 of the last 3 samples), one
  an hour, from an empty store. The first has no stored state and stamps the state with
  its own time; the second finds the state IN_ALARM, computes OK and keeps the time of the
  first; the third finds OK, computes OK again and stamps its own time; the fourth, from OK
  to IN_ALARM, stamps its own time and the fifth, IN_ALARM again, keeps it.
\<close>

theorem enteredStateAt_missed_transition:
  "(let r1 = evaluateMonitor ctrComposite demoCampaign
               (demoEnv ''2024-05-01T10:00:00.000Z'' breachingHistory ''a1'') emptyStore;
        r2 = evaluateMonitor ctrComposite demoCampaign
               (demoEnv ''2024-05-01T11:00:00.000Z'' calmHistory ''a2'') (snd r1);
        r3 = evaluateMonitor ctrComposite demoCampaign
               (demoEnv ''2024-05-01T12:00:00.000Z'' calmHistory ''a3'') (snd r2);
        r4 = evaluateMonitor ctrComposite demoCampaign
               (demoEnv ''2024-05-01T13:00:00.000Z'' breachingHistory ''a4'') (snd r3);
        r5 = evaluateMonitor ctrComposite demoCampaign
               (demoEnv ''2024-05-01T14:00:00.000Z'' breachingHistory ''a5'') (snd r4)
    in map (map_sum id (\<lambda>(s, a). (s_state s, s_enteredStateAt s)) \<circ> fst) [r1, r2, r3, r4, r5] =
         [Inr (IN_ALARM, ''2024-05-01T10:00:00.000Z''),
          Inr (OK, ''2024-05-01T10:00:00.000Z''),
          Inr (OK, ''2024-05-01T12:00:00.000Z''),
          Inr (IN_ALARM, ''2024-05-01T13:00:00.000Z''),
          Inr (IN_ALARM, ''2024-05-01T13:00:00.000Z'')]
       \<and> map_option (\<lambda>s. (s_state s, s_enteredStateAt s)) (getMonitorState ''m1'' (snd r1)) =
           Some (IN_ALARM, ''2024-05-01T10:00:00.000Z'')
       \<and> map_option (\<lambda>s. (s_state s, s_enteredStateAt s)) (getMonitorState ''m1'' (snd r2)) =
           Some (OK, ''2024-05-01T10:00:00.000Z''))"
  by code_simp

section \<open>N of M data points\<close>




section \<open>Dependence on the random draws\<close>

text \<open>
  Claim C6, as stated, fails: \<open>evaluateMonitor\<close> calls \<open>generateExpectedValue\<close>, which draws
  from \<open>Math.random()\<close>. Two evaluations of the same monitor and campaign on the same store
  and history at the same clock time, one with the draw 0 and one with the draw 0.9, have
  the expected values 2.25 and 2.7; the stored sample 3.2 breaches only the first, so one
  evaluation ends IN_ALARM with an alarm and the other OK without.
\<close>

theorem evaluateMonitor_random_counterexample:
  "(let env1 = drawEnv ''2024-05-01T10:00:00.000Z'' swingHistory ''a1'' 0;
        env2 = drawEnv ''2024-05-01T10:00:00.000Z'' swingHistory ''a1'' (9 / 10)
    in map_sum id (\<lambda>(s, a). (s_state s, s_currentValue s, s_expectedValue s, s_anomalyScore s, a \<noteq> None))
         (fst (evaluateMonitor ctrComposite demoCampaign env1 emptyStore))
         = Inr (IN_ALARM, 0, Finite (9 / 4), Finite 4, True)
       \<and> map_sum id (\<lambda>(s, a). (s_state s, s_currentValue s, s_expectedValue s, s_anomalyScore s, a \<noteq> None))
           (fst (evaluateMonitor ctrComposite demoCampaign env2 emptyStore))
         = Inr (OK, 0, Finite (27 / 10), Finite 4, False)
       \<and> e_timestamp env1 = e_timestamp env2 \<and> e_savedAt env1 = e_savedAt env2
       \<and> e_metricValues env1 = e_metricValues env2)"
  by code_simp

text \<open>
  Claim C6, amended. The result of \<open>evaluateMonitor\<close> is determined by the monitor, the
  campaign, the store, the metric history, the clock and the draws of
  \<open>generateExpectedValue\<close> and \<open>evaluateGranularDimensions\<close>. Two evaluations that agree on
  the clock, the history, the outcome of the metric-source read and the draw of
  \<open>generateExpectedValue\<close> return the same new state up to the per-dimension results and
  take the same decision on creating an alarm; if they also agree on the draws of
  \<open>evaluateGranularDimensions\<close>, the new states and the stored states are identical; if they
  also agree on the alarm identifier and the outcome of the insight call, everything is.
  The hour, the day and the draws read by \<open>generateCurrentMetricValue\<close> have no influence.
\<close>

theorem evaluateMonitor_determined:
  assumes src: "e_sourceError env1 = e_sourceError env2"
    and ts: "e_timestamp env1 = e_timestamp env2"
    and sv: "e_savedAt env1 = e_savedAt env2"
    and mv: "e_metricValues env1 = e_metricValues env2"
    and er: "e_expectedRandom env1 = e_expectedRandom env2"
  shows "map_sum id (\<lambda>(s, a). (s\<lparr>s_dimensions := None\<rparr>, a \<noteq> None)) (fst (evaluateMonitor monitor campaign env1 st))
           = map_sum id (\<lambda>(s, a). (s\<lparr>s_dimensions := None\<rparr>, a \<noteq> None)) (fst (evaluateMonitor monitor campaign env2 st))
       \<and> (e_granularRandom env1 = e_granularRandom env2 \<longrightarrow>
            map_sum id (\<lambda>(s, a). (s, a \<noteq> None)) (fst (evaluateMonitor monitor campaign env1 st))
              = map_sum id (\<lambda>(s, a). (s, a \<noteq> None)) (fst (evaluateMonitor monitor campaign env2 st))
            \<and> monitorStates (snd (evaluateMonitor monitor campaign env1 st))
              = monitorStates (snd (evaluateMonitor monitor campaign env2 st)))
       \<and> (e_granularRandom env1 = e_granularRandom env2 \<and> e_uuid env1 = e_uuid env2
            \<and> e_insights env1 = e_insights env2 \<longrightarrow>
            evaluateMonitor monitor campaign env1 st = evaluateMonitor monitor campaign env2 st)"
proof (cases "e_sourceError env2")
  case (Some err)
  then have "evaluateMonitor monitor campaign env1 st = (Inl err, st)"
    and "evaluateMonitor monitor campaign env2 st = (Inl err, st)"
    using src by (simp_all add: evaluateMonitor_throw)
  then show ?thesis by simp
next
  case None
  then have n1: "e_sourceError env1 = None" and n2: "e_sourceError env2 = None"
    using src by simp_all
  let ?n1 = "newStateOf monitor campaign env1 st"
  let ?n2 = "newStateOf monitor campaign env2 st"
  have d: "?n1\<lparr>s_dimensions := None\<rparr> = ?n2\<lparr>s_dimensions := None\<rparr>"
    by (rule newStateOf_env(1) [OF ts sv mv er])
  have s: "s_state ?n1 = s_state ?n2"
    by (rule newStateOf_env(2) [OF ts sv mv er])
  have one: "map_sum id (\<lambda>(s, a). (s\<lparr>s_dimensions := None\<rparr>, a \<noteq> None)) (fst (evaluateMonitor monitor campaign env1 st))
           = map_sum id (\<lambda>(s, a). (s\<lparr>s_dimensions := None\<rparr>, a \<noteq> None)) (fst (evaluateMonitor monitor campaign env2 st))"
    unfolding evaluateMonitor_eq [OF n1] evaluateMonitor_eq [OF n2] Let_def
    using d s by simp
  have two: "map_sum id (\<lambda>(s, a). (s, a \<noteq> None)) (fst (evaluateMonitor monitor campaign env1 st))
              = map_sum id (\<lambda>(s, a). (s, a \<noteq> None)) (fst (evaluateMonitor monitor campaign env2 st))
            \<and> monitorStates (snd (evaluateMonitor monitor campaign env1 st))
              = monitorStates (snd (evaluateMonitor monitor campaign env2 st))"
    if g: "e_granularRandom env1 = e_granularRandom env2"
  proof -
    have e: "?n1 = ?n2" by (rule newStateOf_env(3) [OF ts sv mv er g])
    show ?thesis
      unfolding evaluateMonitor_eq [OF n1] evaluateMonitor_eq [OF n2] Let_def e
      by (simp add: saveAlarm_def Let_def)
  qed
  have three: "evaluateMonitor monitor campaign env1 st = evaluateMonitor monitor campaign env2 st"
    if g: "e_granularRandom env1 = e_granularRandom env2" and u: "e_uuid env1 = e_uuid env2"
      and i: "e_insights env1 = e_insights env2"
  proof -
    have e: "?n1 = ?n2" by (rule newStateOf_env(3) [OF ts sv mv er g])
    have b: "buildAlarm monitor campaign ?n2 env1 = buildAlarm monitor campaign ?n2 env2"
      by (rule buildAlarm_env [OF u i])
    show ?thesis
      unfolding evaluateMonitor_eq [OF n1] evaluateMonitor_eq [OF n2] Let_def e b ..
  qed
  show ?thesis
  proof (intro conjI impI)
    show "map_sum id (\<lambda>(s, a). (s\<lparr>s_dimensions := None\<rparr>, a \<noteq> None)) (fst (evaluateMonitor monitor campaign env1 st))
           = map_sum id (\<lambda>(s, a). (s\<lparr>s_dimensions := None\<rparr>, a \<noteq> None)) (fst (evaluateMonitor monitor campaign env2 st))"
      by (rule one)
  next
    assume g: "e_granularRandom env1 = e_granularRandom env2"
    from two [OF g]
    show "map_sum id (\<lambda>(s, a). (s, a \<noteq> None)) (fst (evaluateMonitor monitor campaign env1 st))
              = map_sum id (\<lambda>(s, a). (s, a \<noteq> None)) (fst (evaluateMonitor monitor campaign env2 st))"
      by (rule conjunct1)
    from two [OF g]
    show "monitorStates (snd (evaluateMonitor monitor campaign env1 st))
              = monitorStates (snd (evaluateMonitor monitor campaign env2 st))"
      by (rule conjunct2)
  next
    assume "e_granularRandom env1 = e_granularRandom env2 \<and> e_uuid env1 = e_uuid env2
            \<and> e_insights env1 = e_insights env2"
    then show "evaluateMonitor monitor campaign env1 st = evaluateMonitor monitor campaign env2 st"
      using three by blast
  qed
qed

text \<open>
  Two evaluations that differ in the hour, the day, the elapsed time and both draws of
  \<open>generateCurrentMetricValue\<close>, and in nothing else, have the same result.
\<close>

theorem evaluateMonitor_determined_witness:
  "e_sourceError (demoEnv ''2024-05-01T10:00:00.000Z'' breachingHistory ''a1'') = e_sourceError otherEnv
   \<and> e_timestamp (demoEnv ''2024-05-01T10:00:00.000Z'' breachingHistory ''a1'') = e_timestamp otherEnv
   \<and> e_savedAt (demoEnv ''2024-05-01T10:00:00.000Z'' breachingHistory ''a1'') = e_savedAt otherEnv
   \<and> e_metricValues (demoEnv ''2024-05-01T10:00:00.000Z'' breachingHistory ''a1'') = e_metricValues otherEnv
   \<and> e_expectedRandom (demoEnv ''2024-05-01T10:00:00.000Z'' breachingHistory ''a1'') = e_expectedRandom otherEnv
   \<and> e_granularRandom (demoEnv ''2024-05-01T10:00:00.000Z'' breachingHistory ''a1'') = e_granularRandom otherEnv
   \<and> e_uuid (demoEnv ''2024-05-01T10:00:00.000Z'' breachingHistory ''a1'') = e_uuid otherEnv
   \<and> e_insights (demoEnv ''2024-05-01T10:00:00.000Z'' breachingHistory ''a1'') = e_insights otherEnv
   \<and> e_hour (demoEnv ''2024-05-01T10:00:00.000Z'' breachingHistory ''a1'') \<noteq> e_hour otherEnv
   \<and> e_noiseRandom (demoEnv ''2024-05-01T10:00:00.000Z'' breachingHistory ''a1'') \<noteq> e_noiseRandom otherEnv
   \<and> e_anomalyRandom (demoEnv ''2024-05-01T10:00:00.000Z'' breachingHistory ''a1'') \<noteq> e_anomalyRandom otherEnv
   \<and> evaluateMonitor ctrComposite demoCampaign
         (demoEnv ''2024-05-01T10:00:00.000Z'' breachingHistory ''a1'') emptyStore
       = evaluateMonitor ctrComposite demoCampaign otherEnv emptyStore"
proof -
  let ?env = "demoEnv ''2024-05-01T10:00:00.000Z'' breachingHistory ''a1''"
  have q: "e_sourceError ?env = e_sourceError otherEnv"
    "e_timestamp ?env = e_timestamp otherEnv"
    "e_savedAt ?env = e_savedAt otherEnv"
    "e_metricValues ?env = e_metricValues otherEnv"
    "e_expectedRandom ?env = e_expectedRandom otherEnv"
    and g: "e_granularRandom ?env = e_granularRandom otherEnv"
    and u: "e_uuid ?env = e_uuid otherEnv"
    and i: "e_insights ?env = e_insights otherEnv"
    and n: "e_hour ?env \<noteq> e_hour otherEnv"
    "e_noiseRandom ?env \<noteq> e_noiseRandom otherEnv"
    "e_anomalyRandom ?env \<noteq> e_anomalyRandom otherEnv"
    by (simp_all add: demoEnv_def otherEnv_def)
  have "evaluateMonitor ctrComposite demoCampaign ?env emptyStore
       = evaluateMonitor ctrComposite demoCampaign otherEnv emptyStore"
    using evaluateMonitor_determined [OF q, of ctrComposite demoCampaign emptyStore] g u i
    by blast
  with q g u i n show ?thesis by (intro conjI)
qed

end
